theory Spec2Isabelle
  imports Main
begin

section \<open>The static file server of demo/file\_server.cpp\<close>

text \<open>
  The server is a set of coroutines over an asynchronous I/O service. One connection is
  handled by one coroutine, which runs its statements in program order and is suspended
  at every \<open>co_await\<close>. The model records what one handler does as a list of events
  (its trace): the system calls it makes, the operations it hands to the I/O service at
  each \<open>co_await\<close>, the lines it logs and its updates of the global counter. Whatever the
  outside world decides (the result of the receive and the bytes it leaves in the buffer,
  the results of \<open>openat\<close> and \<open>fstat\<close>, the content-type table, a failure surfaced by
  the join of a read/send pair) is a field of the environment \<open>env\<close>. A coroutine returns,
  or throws, or never comes to an end: its thread blocks in a system call, or its
  behaviour is undefined.
\<close>

subsection \<open>Constants\<close>

definition BUF_SIZE :: nat where
  "BUF_SIZE = 1024"

definition CRLF :: string where
  "CRLF = [CHR 0x0D, CHR 0x0A]"

definition http_404_hdr :: string where
  "http_404_hdr = ''HTTP/1.1 404 Not Found'' @ CRLF @ ''Content-Length: 0'' @ CRLF @ CRLF"

definition http_400_hdr :: string where
  "http_400_hdr = ''HTTP/1.1 400 Bad Request'' @ CRLF @ ''Content-Length: 0'' @ CRLF @ CRLF"

subsection \<open>Strings: the operations of std::string\_view and fmt that the server uses\<close>

text \<open>\<open>size_t\<close> is 64 bits wide; \<open>npos\<close> is its largest value.\<close>

definition npos :: nat where
  "npos = 2 ^ 64 - 1"

datatype std_exception = out_of_range | system_error int

text \<open>The conversion \<open>size_t(i)\<close> of an \<open>int\<close>: a negative value wraps around.\<close>

definition size_t :: "int \<Rightarrow> nat" where
  "size_t i = nat (i mod 2 ^ 64)"

text \<open>\<open>s.find(c, pos)\<close>: the first index at or after \<open>pos\<close> that holds \<open>c\<close>, else \<open>npos\<close>.\<close>

definition sv_find :: "string \<Rightarrow> char \<Rightarrow> nat \<Rightarrow> nat" where
  "sv_find s c pos =
     (let rest = drop pos s; k = length (takeWhile (\<lambda>x. x \<noteq> c) rest)
      in if k < length rest then pos + k else npos)"

text \<open>\<open>s.find_last_of(c)\<close>: the last index that holds \<open>c\<close>, else \<open>npos\<close>.\<close>

definition sv_find_last_of :: "string \<Rightarrow> char \<Rightarrow> nat" where
  "sv_find_last_of s c =
     (let k = length (takeWhile (\<lambda>x. x \<noteq> c) (rev s))
      in if k < length s then length s - 1 - k else npos)"

text \<open>
  \<open>s.substr(pos, count)\<close> throws \<open>std::out_of_range\<close> when \<open>pos > s.size()\<close>, and
  otherwise returns the \<open>min(count, size - pos)\<close> characters from \<open>pos\<close> on.
\<close>

definition sv_substr :: "string \<Rightarrow> nat \<Rightarrow> nat \<Rightarrow> std_exception + string" where
  "sv_substr s pos count =
     (if pos > length s then Inl out_of_range
      else Inr (take (min count (length s - pos)) (drop pos s)))"

text \<open>\<open>s.compare(pos, count, t) == 0\<close>: the substring equals \<open>t\<close>.\<close>

definition sv_compare_eq :: "string \<Rightarrow> nat \<Rightarrow> nat \<Rightarrow> string \<Rightarrow> std_exception + bool" where
  "sv_compare_eq s pos count t =
     (case sv_substr s pos count of Inl x \<Rightarrow> Inl x | Inr u \<Rightarrow> Inr (u = t))"

text \<open>\<open>std::string::c_str()\<close> as a C string: the bytes before the first NUL.\<close>

definition c_str :: "string \<Rightarrow> string" where
  "c_str s = takeWhile (\<lambda>x. x \<noteq> CHR 0x00) s"

text \<open>The decimal digits that \<open>fmt::format("{}", n)\<close> prints for an integer.\<close>

fun dec_digits :: "nat \<Rightarrow> string" where
  "dec_digits n =
     (if n < 10 then [''0123456789'' ! n]
      else dec_digits (n div 10) @ [''0123456789'' ! (n mod 10)])"

declare dec_digits.simps [simp del]

definition fmt_int :: "int \<Rightarrow> string" where
  "fmt_int i = (if i < 0 then ''-'' @ dec_digits (nat (- i)) else dec_digits (nat i))"

text \<open>Reading a decimal number back, as a client does with the Content-Length value.\<close>

definition digit_val :: "char \<Rightarrow> nat" where
  "digit_val c = of_char c - 48"

definition read_dec :: "string \<Rightarrow> nat" where
  "read_dec s = foldl (\<lambda>acc c. 10 * acc + digit_val c) 0 s"

subsection \<open>The outside world and the events of a handler\<close>

type_synonym fd = int

record stat =
  st_isreg :: bool
  st_size :: int

text \<open>
  \<open>recvmsg_res\<close>: the result of the single \<open>recvmsg\<close>, a byte count or a negative error.
  \<open>buffer\<close>: the bytes of the array \<open>buffer\<close> after the receive, from its start on (the
  received ones come first).
  \<open>openat_res\<close>: what \<open>openat(dirfd, path, O_RDONLY)\<close> does: \<open>None\<close> when the call does
  not return (the open is a blocking one, and the open of a FIFO that no writer has open
  waits for a writer), else the descriptor it returns, negative when the open fails.
  \<open>fstat_res\<close>: \<open>None\<close> when \<open>fstat\<close> fails.
  \<open>MimeDicts\<close>: the extension table of mime\_dicts.hpp, which is not part of the sources
  at hand. \<open>when_all_res\<close>: the failure, if any, that the join of the read/send pair
  issued at a file offset surfaces (when.hpp is not at hand either; that a join surfaces
  the first failure of its members is the contract the specification gives for it).
  The results of \<open>sendmsg\<close> on its own are integers that the code drops, so they do
  not appear.
\<close>

record env =
  recvmsg_res :: int
  buffer :: string
  openat_res :: "string \<Rightarrow> fd option"
  fstat_res :: "fd \<Rightarrow> stat option"
  MimeDicts :: "string \<Rightarrow> string option"
  when_all_res :: "int \<Rightarrow> std_exception option"

datatype msg_flag = MSG_NOSIGNAL | MSG_MORE

text \<open>What an I/O vector points at: bytes of its own, or the first \<open>n\<close> bytes of \<open>filebuf\<close>.\<close>

datatype iov = Bytes string | Filebuf nat

text \<open>
  The operations handed to the I/O service. The last argument of \<open>Sendmsg\<close> tells whether
  the operation carries \<open>IOSQE_IO_LINK\<close>.
\<close>

datatype sqe =
    Recvmsg fd nat "msg_flag list"
  | Sendmsg fd iov "msg_flag list" bool
  | Readv fd nat int
  | Delay nat

datatype event =
    Openat string
  | Fstat fd
  | Close fd
  | Await "sqe list"
  | Incr_runningCoroutines
  | Decr_runningCoroutines
  | Log_serving fd int
  | Log_request string fd
  | Log_unsupported string
  | Log_not_found string
  | Log_crashed fd std_exception
  | Log_closed fd

text \<open>
  How a coroutine fails to return: it throws; or the thread blocks in a system call and
  nothing more happens; or the behaviour of the code is undefined from some point on,
  and the model says nothing of what follows.
\<close>

datatype stop = Thrown std_exception | Blocked | Undefined

type_synonym 'a task = "event list \<times> (stop + 'a)"

subsection \<open>http\_send\_file\<close>

text \<open>
  The lambda that picks the content type: the extension is what follows the last dot
  (\<open>npos + 1\<close> wraps to 0, so a name without a dot is its own extension).
\<close>

definition contentType :: "env \<Rightarrow> string \<Rightarrow> std_exception + string" where
  "contentType e filename =
     (case sv_substr filename ((sv_find_last_of filename (CHR ''.'') + 1) mod 2 ^ 64) npos of
        Inl x \<Rightarrow> Inl x
      | Inr extension \<Rightarrow>
          (case MimeDicts e extension of
             None \<Rightarrow> Inr ''application/octet-stream''
           | Some t \<Rightarrow> Inr t))"

definition http_200_hdr :: "string \<Rightarrow> int \<Rightarrow> string" where
  "http_200_hdr ctype sz =
     ''HTTP/1.1 200 OK'' @ CRLF @ ''Content-type: '' @ ctype @ CRLF @
     ''Content-Length: '' @ fmt_int sz @ CRLF @ CRLF"

text \<open>One read/send pair on the shared buffer, as handed to \<open>when_all\<close>.\<close>

definition window :: "fd \<Rightarrow> fd \<Rightarrow> nat \<Rightarrow> int \<Rightarrow> msg_flag list \<Rightarrow> event" where
  "window infd clientfd len offset flags =
     Await [Readv infd len offset, Sendmsg clientfd (Filebuf len) flags True]"

text \<open>
  The \<open>for\<close> loop of full windows. It returns the offset it stops at, or the failure
  that a join surfaced.
\<close>

function send_windows :: "env \<Rightarrow> fd \<Rightarrow> fd \<Rightarrow> int \<Rightarrow> int \<Rightarrow> int task" where
  "send_windows e infd clientfd sz offset =
     (if sz - offset > int BUF_SIZE then
        (case when_all_res e offset of
           Some x \<Rightarrow>
             ([window infd clientfd BUF_SIZE offset [MSG_NOSIGNAL, MSG_MORE]],
              Inl (Thrown x))
         | None \<Rightarrow>
             (case send_windows e infd clientfd sz (offset + int BUF_SIZE) of
                (tr, r) \<Rightarrow>
                  (window infd clientfd BUF_SIZE offset [MSG_NOSIGNAL, MSG_MORE]
                     # Await [Delay 1] # tr, r)))
      else ([], Inr offset))"
  by pat_completeness auto
termination
  by (relation "measure (\<lambda>(e, infd, clientfd, sz, offset). nat (sz - offset))")
     (auto simp: BUF_SIZE_def)

declare send_windows.simps [simp del]

text \<open>The body transfer: the loop, then the remainder.\<close>

definition send_body :: "env \<Rightarrow> fd \<Rightarrow> fd \<Rightarrow> int \<Rightarrow> unit task" where
  "send_body e infd clientfd sz =
     (case send_windows e infd clientfd sz 0 of
        (tr, Inl x) \<Rightarrow> (tr, Inl x)
      | (tr, Inr offset) \<Rightarrow>
          if sz > offset then
            (tr @ [window infd clientfd (nat (sz - offset)) offset [MSG_NOSIGNAL]],
             case when_all_res e offset of Some x \<Rightarrow> Inl (Thrown x) | None \<Rightarrow> Inr ())
          else (tr, Inr ()))"

definition send_404 :: "string \<Rightarrow> fd \<Rightarrow> event list" where
  "send_404 filename clientfd =
     [Log_not_found filename,
      Await [Sendmsg clientfd (Bytes http_404_hdr) [MSG_NOSIGNAL] False]]"

text \<open>
  The open is a plain \<open>O_RDONLY\<close> one, made by the coroutine itself and not through the
  I/O service: when it does not return, the thread is blocked in it, nothing has been
  sent, and the scope guard has not been set up yet. Once it has returned, \<open>closefd\<close>
  runs when the scope is left, on the normal path and on a failure alike, so the trace
  ends with the \<open>close\<close> of \<open>infd\<close> (also of a negative one).
\<close>

definition http_send_file :: "env \<Rightarrow> string \<Rightarrow> fd \<Rightarrow> unit task" where
  "http_send_file e filename0 clientfd =
     (let filename = (if filename0 = ''./'' then ''./index.html'' else filename0)
      in case openat_res e (c_str filename) of
           None \<Rightarrow> ([Openat (c_str filename)], Inl Blocked)
         | Some infd \<Rightarrow>
             if infd < 0 then
               (Openat (c_str filename) # send_404 filename clientfd @ [Close infd], Inr ())
             else
               (case fstat_res e infd of
                  None \<Rightarrow>
                    (Openat (c_str filename) # Fstat infd # send_404 filename clientfd
                       @ [Close infd], Inr ())
                | Some st \<Rightarrow>
                    if \<not> st_isreg st then
                      (Openat (c_str filename) # Fstat infd # send_404 filename clientfd
                         @ [Close infd], Inr ())
                    else
                      (case contentType e filename of
                         Inl x \<Rightarrow>
                           ([Openat (c_str filename), Fstat infd, Close infd],
                            Inl (Thrown x))
                       | Inr ctype \<Rightarrow>
                           (case send_body e infd clientfd (st_size st) of
                              (tr, r) \<Rightarrow>
                                (Openat (c_str filename) # Fstat infd
                                   # Await [Sendmsg clientfd
                                              (Bytes (http_200_hdr ctype (st_size st)))
                                              [MSG_NOSIGNAL, MSG_MORE] False]
                                   # tr @ [Close infd], r)))))"

subsection \<open>serve\<close>

text \<open>
  The file name of a GET request:
  \<open>"."s += buf_view.substr(4, buf_view.find(' ', 4) - 4)\<close>.
  The result of \<open>find\<close> is never below 4, so the subtraction does not wrap.
\<close>

definition request_file :: "string \<Rightarrow> std_exception + string" where
  "request_file buf_view =
     (case sv_substr buf_view 4 (sv_find buf_view (CHR '' '') 4 - 4) of
        Inl x \<Rightarrow> Inl x
      | Inr p \<Rightarrow> Inr (''.'' @ p))"

text \<open>
  \<open>buf_view = std::string_view(buffer.data(), size_t(res))\<close>: the first \<open>size_t(res)\<close>
  bytes of the buffer. The code does not look at the sign of \<open>res\<close>. After a failed
  receive \<open>size_t(res)\<close> is at least \<open>2 ^ 64 - 2 ^ 31\<close>, far more than the \<open>BUF_SIZE\<close> bytes
  of the array: the view is no valid range, every later step reads through it, and the
  behaviour is undefined. \<open>received\<close> is the view when it is a valid one (a view that
  reaches past the bytes the environment describes is no more known than one that
  reaches past the array).
\<close>

definition received :: "env \<Rightarrow> string option" where
  "received e =
     (let n = size_t (recvmsg_res e)
      in if n \<le> BUF_SIZE \<and> n \<le> length (buffer e) then Some (take n (buffer e))
         else None)"

definition serve :: "env \<Rightarrow> fd \<Rightarrow> int \<Rightarrow> unit task" where
  "serve e clientfd running =
     (let pre = [Log_serving clientfd running,
                 Await [Recvmsg clientfd BUF_SIZE [MSG_NOSIGNAL]]]
      in case received e of
           None \<Rightarrow> (pre, Inl Undefined)
         | Some buf_view \<Rightarrow>
             (case sv_compare_eq buf_view 0 3 ''GET'' of
                Inl x \<Rightarrow> (pre, Inl (Thrown x))
              | Inr True \<Rightarrow>
                  (case request_file buf_view of
                     Inl x \<Rightarrow> (pre, Inl (Thrown x))
                   | Inr file \<Rightarrow>
                       (case http_send_file e file clientfd of
                          (tr, r) \<Rightarrow> (pre @ Log_request file clientfd # tr, r)))
              | Inr False \<Rightarrow>
                  (pre @ [Log_unsupported buf_view,
                          Await [Sendmsg clientfd (Bytes http_400_hdr) [MSG_NOSIGNAL] False]],
                   Inr ())))"

subsection \<open>The handler of one accepted connection\<close>

text \<open>
  The lambda of \<open>accept_connection\<close>. It takes the value of \<open>runningCoroutines\<close> at its
  start and returns the value at its end as this handler alone leaves it, next to its
  trace and its own outcome; the two updates are events of the trace as well, since
  other handlers may run while this one is suspended. Every exception the code above
  can throw is a \<open>std::exception\<close>, which the \<open>catch\<close> clause takes. When \<open>serve\<close> does not
  come to an end, neither does the handler: the statements after the \<open>try\<close> block are
  not reached.
\<close>

definition connection_handler :: "env \<Rightarrow> fd \<Rightarrow> int \<Rightarrow> event list \<times> int \<times> (stop + unit)" where
  "connection_handler e clientfd running0 =
     (let running1 = running0 + 1
      in case serve e clientfd running1 of
           (tr, Inl Blocked) \<Rightarrow> (Incr_runningCoroutines # tr, running1, Inl Blocked)
         | (tr, Inl Undefined) \<Rightarrow> (Incr_runningCoroutines # tr, running1, Inl Undefined)
         | (tr, r) \<Rightarrow>
             (Incr_runningCoroutines # tr
                @ (case r of Inl (Thrown x) \<Rightarrow> [Log_crashed clientfd x] | _ \<Rightarrow> [])
                @ [Close clientfd, Log_closed clientfd, Decr_runningCoroutines],
              running1 - 1,
              Inr ()))"

subsection \<open>Reading a trace\<close>

text \<open>The operations a trace hands to the I/O service, in the order of submission.\<close>

definition ops_of :: "event \<Rightarrow> sqe list" where
  "ops_of ev = (case ev of Await sqes \<Rightarrow> sqes | _ \<Rightarrow> [])"

definition ops :: "event list \<Rightarrow> sqe list" where
  "ops tr = concat (map ops_of tr)"

text \<open>What is sent, and to which descriptor: the response as the client is to get it.\<close>

definition sent_of :: "sqe \<Rightarrow> (fd \<times> iov) list" where
  "sent_of op = (case op of Sendmsg f v fl lnk \<Rightarrow> [(f, v)] | _ \<Rightarrow> [])"

definition sent :: "event list \<Rightarrow> (fd \<times> iov) list" where
  "sent tr = concat (map sent_of (ops tr))"

text \<open>The file reads: descriptor, offset and length.\<close>

definition read_of :: "sqe \<Rightarrow> (fd \<times> int \<times> nat) list" where
  "read_of op = (case op of Readv f n off \<Rightarrow> [(f, off, n)] | _ \<Rightarrow> [])"

definition reads :: "event list \<Rightarrow> (fd \<times> int \<times> nat) list" where
  "reads tr = concat (map read_of (ops tr))"

text \<open>
  The windows the specification asks for, as (offset, length) pairs: for a file of \<open>S\<close>
  bytes and a window capacity \<open>W\<close>, \<open>S div W\<close> full windows, then one of \<open>S mod W\<close>
  bytes when that is not zero.
\<close>

definition spec_windows :: "nat \<Rightarrow> nat \<Rightarrow> (int \<times> nat) list" where
  "spec_windows W S =
     map (\<lambda>k. (int (k * W), W)) [0..<S div W] @
     (if S mod W > 0 then [(int (S div W * W), S mod W)] else [])"

text \<open>The first token of a request, as the specification words it: what precedes the first space.\<close>

definition first_token :: "string \<Rightarrow> string" where
  "first_token s = takeWhile (\<lambda>x. x \<noteq> CHR '' '') s"

subsection \<open>The timeline of a coroutine\<close>

text \<open>
  Modelled from the spec: the I/O service and the join combinator (io\_service.hpp,
  when.hpp) are not among the sources at hand. By the contract the specification gives
  for them, awaiting an operation suspends the coroutine until the operation completes,
  the all-complete combinator suspends it until every member completes, and an operation
  that carries the link tag is dispatched only after its predecessor completes. So an
  \<open>Await\<close> event unfolds into the submissions of its operations, in order, followed by
  their completions, in order, and the coroutine does nothing in between.
\<close>

datatype tick = Step event | Submit sqe | Complete sqe

definition timeline_of :: "event \<Rightarrow> tick list" where
  "timeline_of ev =
     (case ev of Await sqes \<Rightarrow> map Submit sqes @ map Complete sqes | _ \<Rightarrow> [Step ev])"

definition timeline :: "event list \<Rightarrow> tick list" where
  "timeline tr = concat (map timeline_of tr)"

text \<open>An operation uses the shared buffer when it reads into it or sends from it.\<close>

definition uses_filebuf :: "sqe \<Rightarrow> bool" where
  "uses_filebuf op =
     (case op of Readv f n off \<Rightarrow> True | Sendmsg f (Filebuf n) fl lnk \<Rightarrow> True | _ \<Rightarrow> False)"

text \<open>The buffer operations submitted, and those completed, in a stretch of a timeline.\<close>

definition submitted :: "tick list \<Rightarrow> sqe list" where
  "submitted t =
     concat (map (\<lambda>k. case k of Submit op \<Rightarrow> if uses_filebuf op then [op] else [] | _ \<Rightarrow> []) t)"

definition completed :: "tick list \<Rightarrow> sqe list" where
  "completed t =
     concat (map (\<lambda>k. case k of Complete op \<Rightarrow> if uses_filebuf op then [op] else [] | _ \<Rightarrow> []) t)"

subsection \<open>Concrete environments\<close>

text \<open>
  A root directory that holds the regular file \<open>a.txt\<close> of 2000 bytes and nothing else
  that opens, a table that knows the extension \<open>txt\<close>, and a request of 23 bytes for that
  file.
\<close>

definition env_example :: env where
  "env_example =
     \<lparr> recvmsg_res = 23,
       buffer = ''GET /a.txt HTTP/1.1'' @ CRLF @ CRLF,
       openat_res = (\<lambda>p. if p = ''./a.txt'' then Some 7 else Some (- 1)),
       fstat_res = (\<lambda>f. if f = 7 then Some \<lparr> st_isreg = True, st_size = 2000 \<rparr> else None),
       MimeDicts = (\<lambda>x. if x = ''txt'' then Some ''text/plain'' else None),
       when_all_res = (\<lambda>off. None) \<rparr>"

text \<open>The same world with other requests: nothing received, a bare \<open>GET\<close>, a \<open>POST\<close>,
  a file that is not there, and a request line that ends with the path.\<close>

definition env_empty :: env where
  "env_empty = env_example \<lparr> recvmsg_res := 0 \<rparr>"

definition env_bare_get :: env where
  "env_bare_get = env_example \<lparr> recvmsg_res := 3, buffer := ''GET'' \<rparr>"

definition env_post :: env where
  "env_post =
     env_example \<lparr> recvmsg_res := 24, buffer := ''POST /a.txt HTTP/1.1'' @ CRLF @ CRLF \<rparr>"

definition env_missing :: env where
  "env_missing =
     env_example \<lparr> recvmsg_res := 23, buffer := ''GET /b.txt HTTP/1.1'' @ CRLF @ CRLF \<rparr>"

definition env_no_version :: env where
  "env_no_version = env_example \<lparr> recvmsg_res := 10, buffer := ''GET /a.txt'' \<rparr>"


text \<open>
  A request whose first token is \<open>GETX\<close>. The path it yields is \<open>.\<close>, the root directory
  itself, which opens and is not a regular file.
\<close>

definition env_getx :: env where
  "env_getx =
     \<lparr> recvmsg_res = 19,
       buffer = ''GETX / HTTP/1.1'' @ CRLF @ CRLF,
       openat_res = (\<lambda>p. if p = ''.'' then Some 7 else Some (- 1)),
       fstat_res = (\<lambda>f. if f = 7 then Some \<lparr> st_isreg = False, st_size = 4096 \<rparr> else None),
       MimeDicts = (\<lambda>x. None),
       when_all_res = (\<lambda>off. None) \<rparr>"

text \<open>A root directory that holds the default document, 10 bytes long.\<close>

definition env_index :: env where
  "env_index =
     \<lparr> recvmsg_res = 18,
       buffer = ''GET / HTTP/1.1'' @ CRLF @ CRLF,
       openat_res = (\<lambda>p. if p = ''./index.html'' then Some 7 else Some (- 1)),
       fstat_res = (\<lambda>f. if f = 7 then Some \<lparr> st_isreg = True, st_size = 10 \<rparr> else None),
       MimeDicts = (\<lambda>x. if x = ''html'' then Some ''text/html'' else None),
       when_all_res = (\<lambda>off. None) \<rparr>"

text \<open>The same root directory, and a request that names the default document.\<close>

definition env_index_named :: env where
  "env_index_named =
     env_index \<lparr> recvmsg_res := 28, buffer := ''GET /index.html HTTP/1.1'' @ CRLF @ CRLF \<rparr>"

text \<open>The world of \<open>env_example\<close> in which the join of the pair issued at offset 1024 fails
  (a broken pipe).\<close>

definition env_broken :: env where
  "env_broken =
     env_example \<lparr> when_all_res := (\<lambda>off. if off = 1024 then Some (system_error 32) else None) \<rparr>"

text \<open>
  A root directory that holds the FIFO \<open>pipe\<close>, which no writer has open, and a request
  for it.
\<close>

definition env_fifo :: env where
  "env_fifo =
     \<lparr> recvmsg_res = 22,
       buffer = ''GET /pipe HTTP/1.1'' @ CRLF @ CRLF,
       openat_res = (\<lambda>p. if p = ''./pipe'' then None else Some (- 1)),
       fstat_res = (\<lambda>f. None),
       MimeDicts = (\<lambda>x. None),
       when_all_res = (\<lambda>off. None) \<rparr>"

text \<open>
  An event is well paired when it hands over no operation on the shared buffer, or just
  a read together with the linked send of the bytes read.
\<close>

definition well_paired :: "event \<Rightarrow> bool" where
  "well_paired ev =
     (list_all (\<lambda>op. \<not> uses_filebuf op) (ops_of ev) \<or>
      (\<exists>f n off c fl. ev = Await [Readv f n off, Sendmsg c (Filebuf n) fl True]))"

section \<open>Properties\<close>

subsection \<open>Strings\<close>

lemma sv_compare_eq_GET: "sv_compare_eq s 0 3 ''GET'' = Inr (take 3 s = ''GET'')"
  by (auto simp: sv_compare_eq_def sv_substr_def min_def)

lemma request_file_short: "length s < 4 \<Longrightarrow> request_file s = Inl out_of_range"
  by (simp add: request_file_def sv_substr_def)

lemma request_file_long:
  "4 \<le> length s \<Longrightarrow>
   request_file s = Inr (''.'' @ take (sv_find s (CHR '' '') 4 - 4) (drop 4 s))"
  by (simp add: request_file_def sv_substr_def min_def)

lemma sv_find_absent:
  assumes "c \<notin> set (drop pos s)"
  shows "sv_find s c pos = npos"
proof -
  have whole: "takeWhile (\<lambda>x. x \<noteq> c) (drop pos s) = drop pos s"
    using assms by (auto simp: takeWhile_eq_all_conv)
  show ?thesis unfolding sv_find_def Let_def whole by simp
qed

lemma digit_val_digit:
  assumes "d < 10"
  shows "digit_val (''0123456789'' ! d) = d"
proof -
  have "d \<in> {0, 1, 2, 3, 4, 5, 6, 7, 8, 9}" using assms by auto
  then show ?thesis by (auto simp: digit_val_def)
qed

lemma read_dec_snoc: "read_dec (s @ [c]) = 10 * read_dec s + digit_val c"
  by (simp add: read_dec_def)

lemma read_dec_dec_digits: "read_dec (dec_digits n) = n"
proof (induction n rule: dec_digits.induct)
  case (1 n)
  show ?case
  proof (cases "n < 10")
    case True
    then show ?thesis
      using read_dec_snoc [of "[]" "''0123456789'' ! n"]
      by (simp add: dec_digits.simps [of n] digit_val_digit read_dec_def)
  next
    case False
    then have "read_dec (dec_digits (n div 10)) = n div 10" using 1 by simp
    with False show ?thesis
      by (simp add: dec_digits.simps [of n] read_dec_snoc digit_val_digit)
  qed
qed

subsection \<open>Traces and windows\<close>

lemma BUF_SIZE_pos: "0 < BUF_SIZE"
  by (simp add: BUF_SIZE_def)

lemma spec_windows_0: "spec_windows W 0 = []"
  by (simp add: spec_windows_def)

lemma ops_Nil: "ops [] = []" and ops_Cons: "ops (ev # tr) = ops_of ev @ ops tr"
  and ops_append: "ops (tr @ tr') = ops tr @ ops tr'"
  by (simp_all add: ops_def)

lemma ops_of_simps:
  "ops_of (Await sqes) = sqes" "ops_of (Openat p) = []" "ops_of (Fstat f) = []"
  "ops_of (Close f) = []" "ops_of Incr_runningCoroutines = []"
  "ops_of Decr_runningCoroutines = []" "ops_of (Log_serving f n) = []"
  "ops_of (Log_request p f) = []" "ops_of (Log_unsupported p) = []"
  "ops_of (Log_not_found p) = []" "ops_of (Log_crashed f x) = []"
  "ops_of (Log_closed f) = []"
  by (simp_all add: ops_of_def)

lemma ops_of_window:
  "ops_of (window infd clientfd len offset flags) =
     [Readv infd len offset, Sendmsg clientfd (Filebuf len) flags True]"
  by (simp add: window_def ops_of_def)

lemma sent_Nil: "sent [] = []" and sent_Cons: "sent (ev # tr) = concat (map sent_of (ops_of ev)) @ sent tr"
  and sent_append: "sent (tr @ tr') = sent tr @ sent tr'"
  by (simp_all add: sent_def ops_def)

lemma reads_Nil: "reads [] = []" and reads_Cons: "reads (ev # tr) = concat (map read_of (ops_of ev)) @ reads tr"
  and reads_append: "reads (tr @ tr') = reads tr @ reads tr'"
  by (simp_all add: reads_def ops_def)

lemma sent_of_simps:
  "sent_of (Sendmsg f v fl lnk) = [(f, v)]" "sent_of (Readv f n off) = []"
  "sent_of (Recvmsg f n fl) = []" "sent_of (Delay d) = []"
  by (simp_all add: sent_of_def)

lemma read_of_simps:
  "read_of (Sendmsg f v fl lnk) = []" "read_of (Readv f n off) = [(f, off, n)]"
  "read_of (Recvmsg f n fl) = []" "read_of (Delay d) = []"
  by (simp_all add: read_of_def)

lemma spec_windows_step:
  assumes "0 < W" "W < R"
  shows "spec_windows W R = (0, W) # map (\<lambda>(o', n). (int W + o', n)) (spec_windows W (R - W))"
proof -
  have d: "R div W = Suc ((R - W) div W)" using assms by (simp add: le_div_geq)
  have m: "R mod W = (R - W) mod W" using assms by (simp add: le_mod_geq)
  have u: "[0..<Suc ((R - W) div W)] = 0 # map Suc [0..<(R - W) div W]"
    by (simp add: upt_conv_Cons map_Suc_upt del: upt_Suc)
  show ?thesis
    unfolding spec_windows_def d m u
    by (simp add: algebra_simps)
qed

lemma spec_windows_last:
  assumes "0 < R" "R \<le> W"
  shows "spec_windows W R = [(0, R)]"
proof (cases "R = W")
  case True
  then show ?thesis using assms by (simp add: spec_windows_def)
next
  case False
  then have "R < W" using assms by simp
  then show ?thesis using assms by (simp add: spec_windows_def)
qed

lemma sum_spec_windows: "sum_list (map snd (spec_windows W S)) = S"
proof -
  have "S div W * W + S mod W = S" by simp
  then show ?thesis by (auto simp: spec_windows_def sum_list_triv comp_def)
qed

lemma send_windows_ok:
  "(\<forall>o'. when_all_res e o' = None) \<Longrightarrow> offset \<le> sz \<Longrightarrow>
   \<exists>tr off'. send_windows e infd clientfd sz offset = (tr, Inr off') \<and>
     offset \<le> off' \<and> off' \<le> sz \<and>
     reads tr @ (if off' < sz then [(infd, off', nat (sz - off'))] else []) =
       map (\<lambda>(o', n). (infd, offset + o', n)) (spec_windows BUF_SIZE (nat (sz - offset))) \<and>
     sent tr @ (if off' < sz then [(clientfd, Filebuf (nat (sz - off')))] else []) =
       map (\<lambda>(o', n). (clientfd, Filebuf n)) (spec_windows BUF_SIZE (nat (sz - offset)))"
proof (induction e infd clientfd sz offset rule: send_windows.induct)
  case (1 e infd clientfd sz offset)
  show ?case
  proof (cases "sz - offset > int BUF_SIZE")
    case True
    have nf: "when_all_res e offset = None" using "1.prems" by simp
    have le: "offset + int BUF_SIZE \<le> sz" using True by simp
    obtain tr off' where
      sw: "send_windows e infd clientfd sz (offset + int BUF_SIZE) = (tr, Inr off')"
      and b1: "offset + int BUF_SIZE \<le> off'" and b2: "off' \<le> sz"
      and rd: "reads tr @ (if off' < sz then [(infd, off', nat (sz - off'))] else []) =
         map (\<lambda>(o', n). (infd, offset + int BUF_SIZE + o', n))
           (spec_windows BUF_SIZE (nat (sz - (offset + int BUF_SIZE))))"
      and sn: "sent tr @ (if off' < sz then [(clientfd, Filebuf (nat (sz - off')))] else []) =
         map (\<lambda>(o', n). (clientfd, Filebuf n))
           (spec_windows BUF_SIZE (nat (sz - (offset + int BUF_SIZE))))"
      using "1.IH" [OF True nf "1.prems"(1) le] by blast
    have eq: "send_windows e infd clientfd sz offset =
        (window infd clientfd BUF_SIZE offset [MSG_NOSIGNAL, MSG_MORE] # Await [Delay 1] # tr,
         Inr off')"
      using True nf sw by (simp add: send_windows.simps [of e infd clientfd sz offset])
    have R: "nat (sz - (offset + int BUF_SIZE)) = nat (sz - offset) - BUF_SIZE"
      by simp
    have sp: "spec_windows BUF_SIZE (nat (sz - offset)) =
        (0, BUF_SIZE) # map (\<lambda>(o', n). (int BUF_SIZE + o', n))
          (spec_windows BUF_SIZE (nat (sz - offset) - BUF_SIZE))"
      using True by (intro spec_windows_step) (simp_all add: BUF_SIZE_pos)
    show ?thesis
      unfolding eq sp
      using b1 b2 rd sn
      by (simp add: R reads_Cons sent_Cons ops_of_window ops_of_simps read_of_simps
          sent_of_simps split_def comp_def add.assoc)
  next
    case False
    have eq: "send_windows e infd clientfd sz offset = ([], Inr offset)"
      using False by (simp add: send_windows.simps [of e infd clientfd sz offset])
    show ?thesis
    proof (cases "offset < sz")
      case True
      then have "spec_windows BUF_SIZE (nat (sz - offset)) = [(0, nat (sz - offset))]"
        using False by (intro spec_windows_last) simp_all
      then show ?thesis using True "1.prems" by (simp add: eq reads_Nil sent_Nil)
    next
      case F: False
      then have "sz = offset" using "1.prems" by simp
      with eq show ?thesis
        by (intro exI [of _ "[]"] exI [of _ offset]) (simp add: reads_Nil sent_Nil spec_windows_0)
    qed
  qed
qed

lemma send_body_ok:
  assumes "\<forall>o'. when_all_res e o' = None" and "0 \<le> sz"
  shows "\<exists>tr. send_body e infd clientfd sz = (tr, Inr ()) \<and>
     reads tr = map (\<lambda>(o', n). (infd, o', n)) (spec_windows BUF_SIZE (nat sz)) \<and>
     sent tr = map (\<lambda>(o', n). (clientfd, Filebuf n)) (spec_windows BUF_SIZE (nat sz))"
proof -
  obtain tr off' where
    sw: "send_windows e infd clientfd sz 0 = (tr, Inr off')"
    and rd: "reads tr @ (if off' < sz then [(infd, off', nat (sz - off'))] else []) =
       map (\<lambda>(o', n). (infd, 0 + o', n)) (spec_windows BUF_SIZE (nat (sz - 0)))"
    and sn: "sent tr @ (if off' < sz then [(clientfd, Filebuf (nat (sz - off')))] else []) =
       map (\<lambda>(o', n). (clientfd, Filebuf n)) (spec_windows BUF_SIZE (nat (sz - 0)))"
    using send_windows_ok [OF assms(1), of 0 sz infd clientfd] assms(2) by blast
  have nf: "when_all_res e off' = None" using assms(1) by simp
  show ?thesis
  proof (cases "off' < sz")
    case True
    then have "send_body e infd clientfd sz =
        (tr @ [window infd clientfd (nat (sz - off')) off' [MSG_NOSIGNAL]], Inr ())"
      by (simp add: send_body_def sw nf)
    then show ?thesis using True rd sn
      by (simp add: reads_append sent_append reads_Cons sent_Cons reads_Nil sent_Nil
          ops_of_window read_of_simps sent_of_simps)
  next
    case False
    then have "send_body e infd clientfd sz = (tr, Inr ())"
      by (simp add: send_body_def sw)
    then show ?thesis using False rd sn by simp
  qed
qed

lemma find_last_of_bound: "(sv_find_last_of s c + 1) mod 2 ^ 64 \<le> length s"
proof (cases "length (takeWhile (\<lambda>x. x \<noteq> c) (rev s)) < length s")
  case True
  then have "sv_find_last_of s c + 1 \<le> length s"
    by (simp add: sv_find_last_of_def Let_def)
  moreover have "(sv_find_last_of s c + 1) mod 2 ^ 64 \<le> sv_find_last_of s c + 1"
    by (rule mod_less_eq_dividend)
  ultimately show ?thesis by linarith
next
  case False
  then have "sv_find_last_of s c = npos" by (simp add: sv_find_last_of_def Let_def)
  then show ?thesis by (simp add: npos_def)
qed

lemma contentType_ok: "\<exists>ctype. contentType e filename = Inr ctype"
  using find_last_of_bound [of filename "CHR ''.''"]
  by (simp add: contentType_def sv_substr_def split: option.split)

subsection \<open>The receive\<close>

lemma received_length: "received e = Some buf \<Longrightarrow> length buf \<le> BUF_SIZE"
  by (auto simp: received_def Let_def split: if_splits)


lemma received_zero: "recvmsg_res e = 0 \<Longrightarrow> received e = Some []"
  by (simp add: received_def size_t_def)

subsection \<open>The paths through the responder and through serve\<close>

lemma http_send_file_regular:
  assumes "filename = (if filename0 = ''./'' then ''./index.html'' else filename0)"
    and "openat_res e (c_str filename) = Some infd" and "0 \<le> infd"
    and "fstat_res e infd = Some st" and "st_isreg st"
    and "contentType e filename = Inr ctype"
  shows "http_send_file e filename0 clientfd =
     (Openat (c_str filename) # Fstat infd
        # Await [Sendmsg clientfd (Bytes (http_200_hdr ctype (st_size st)))
                   [MSG_NOSIGNAL, MSG_MORE] False]
        # fst (send_body e infd clientfd (st_size st)) @ [Close infd],
      snd (send_body e infd clientfd (st_size st)))"
  using assms by (simp add: http_send_file_def Let_def split_def)

lemma http_send_file_not_found:
  assumes "filename = (if filename0 = ''./'' then ''./index.html'' else filename0)"
    and "openat_res e (c_str filename) = Some infd"
    and "infd < 0 \<or> fstat_res e infd = None \<or> (\<exists>st. fstat_res e infd = Some st \<and> \<not> st_isreg st)"
  shows "http_send_file e filename0 clientfd =
     (Openat (c_str filename) # (if infd < 0 then [] else [Fstat infd])
        @ [Log_not_found filename,
           Await [Sendmsg clientfd (Bytes http_404_hdr) [MSG_NOSIGNAL] False],
           Close infd],
      Inr ())"
  using assms by (auto simp: http_send_file_def Let_def send_404_def)

lemma http_send_file_blocked:
  assumes "filename = (if filename0 = ''./'' then ''./index.html'' else filename0)"
    and "openat_res e (c_str filename) = None"
  shows "http_send_file e filename0 clientfd = ([Openat (c_str filename)], Inl Blocked)"
  using assms by (simp add: http_send_file_def Let_def)

lemma serve_GET:
  assumes "received e = Some buf" and "take 3 buf = ''GET''"
    and "request_file buf = Inr file"
  shows "serve e clientfd running =
     ([Log_serving clientfd running, Await [Recvmsg clientfd BUF_SIZE [MSG_NOSIGNAL]],
       Log_request file clientfd] @ fst (http_send_file e file clientfd),
      snd (http_send_file e file clientfd))"
  using assms by (simp add: serve_def Let_def sv_compare_eq_GET split_def)

lemma serve_not_GET:
  assumes "received e = Some buf" and "take 3 buf \<noteq> ''GET''"
  shows "serve e clientfd running =
     ([Log_serving clientfd running, Await [Recvmsg clientfd BUF_SIZE [MSG_NOSIGNAL]],
       Log_unsupported buf,
       Await [Sendmsg clientfd (Bytes http_400_hdr) [MSG_NOSIGNAL] False]],
      Inr ())"
  using assms by (simp add: serve_def Let_def sv_compare_eq_GET)

lemma serve_parse_fails:
  assumes "received e = Some buf" and "take 3 buf = ''GET''"
    and "request_file buf = Inl x"
  shows "serve e clientfd running =
     ([Log_serving clientfd running, Await [Recvmsg clientfd BUF_SIZE [MSG_NOSIGNAL]]],
      Inl (Thrown x))"
  using assms by (simp add: serve_def Let_def sv_compare_eq_GET)

lemma serve_undefined:
  assumes "received e = None"
  shows "serve e clientfd running =
     ([Log_serving clientfd running, Await [Recvmsg clientfd BUF_SIZE [MSG_NOSIGNAL]]],
      Inl Undefined)"
  using assms by (simp add: serve_def Let_def)

subsection \<open>The concrete environments, evaluated\<close>

lemma env_example_received:
  "received env_example = Some (''GET /a.txt HTTP/1.1'' @ CRLF @ CRLF)"
  by (simp add: received_def size_t_def env_example_def CRLF_def BUF_SIZE_def)

lemma env_example_request:
  "request_file (''GET /a.txt HTTP/1.1'' @ CRLF @ CRLF) = Inr ''./a.txt''"
  by (simp add: request_file_def sv_substr_def sv_find_def CRLF_def)

lemma env_empty_received: "received env_empty = Some []"
  by (simp add: received_zero env_empty_def)

lemma env_bare_get_received: "received env_bare_get = Some ''GET''"
  by (simp add: received_def size_t_def env_bare_get_def BUF_SIZE_def)

lemma env_post_received:
  "received env_post = Some (''POST /a.txt HTTP/1.1'' @ CRLF @ CRLF)"
  by (simp add: received_def size_t_def env_post_def CRLF_def BUF_SIZE_def)

lemma env_missing_received:
  "received env_missing = Some (''GET /b.txt HTTP/1.1'' @ CRLF @ CRLF)"
  by (simp add: received_def size_t_def env_missing_def CRLF_def BUF_SIZE_def)

lemma env_missing_request:
  "request_file (''GET /b.txt HTTP/1.1'' @ CRLF @ CRLF) = Inr ''./b.txt''"
  by (simp add: request_file_def sv_substr_def sv_find_def CRLF_def)

lemma env_no_version_received: "received env_no_version = Some ''GET /a.txt''"
  by (simp add: received_def size_t_def env_no_version_def BUF_SIZE_def)


lemma env_getx_received:
  "received env_getx = Some (''GETX / HTTP/1.1'' @ CRLF @ CRLF)"
  by (simp add: received_def size_t_def env_getx_def CRLF_def BUF_SIZE_def)

lemma env_getx_request: "request_file (''GETX / HTTP/1.1'' @ CRLF @ CRLF) = Inr ''.''"
  by (simp add: request_file_def sv_substr_def sv_find_def CRLF_def)

lemma env_index_received:
  "received env_index = Some (''GET / HTTP/1.1'' @ CRLF @ CRLF)"
  by (simp add: received_def size_t_def env_index_def CRLF_def BUF_SIZE_def)

lemma env_broken_received:
  "received env_broken = Some (''GET /a.txt HTTP/1.1'' @ CRLF @ CRLF)"
  by (simp add: received_def size_t_def env_broken_def env_example_def CRLF_def BUF_SIZE_def)

lemma env_fifo_received:
  "received env_fifo = Some (''GET /pipe HTTP/1.1'' @ CRLF @ CRLF)"
  by (simp add: received_def size_t_def env_fifo_def CRLF_def BUF_SIZE_def)

lemma env_fifo_request: "request_file (''GET /pipe HTTP/1.1'' @ CRLF @ CRLF) = Inr ''./pipe''"
  by (simp add: request_file_def sv_substr_def sv_find_def CRLF_def)

lemma c_str_a_txt: "c_str ''./a.txt'' = ''./a.txt''"
  by (simp add: c_str_def)

lemma spec_windows_2000: "spec_windows BUF_SIZE 2000 = [(0, 1024), (1024, 976)]"
  by (simp add: spec_windows_def BUF_SIZE_def)

text \<open>An exact multiple of the capacity has no trailing window.\<close>

lemma spec_windows_2048: "spec_windows BUF_SIZE 2048 = [(0, 1024), (1024, 1024)]"
  by (simp add: spec_windows_def BUF_SIZE_def upt_rec)

lemma http_404_hdr_text:
  "http_404_hdr = ''HTTP/1.1 404 Not Found'' @ CRLF @ ''Content-Length: 0'' @ CRLF @ CRLF"
  by (simp add: http_404_hdr_def)

lemma http_400_hdr_text:
  "http_400_hdr = ''HTTP/1.1 400 Bad Request'' @ CRLF @ ''Content-Length: 0'' @ CRLF @ CRLF"
  by (simp add: http_400_hdr_def)

lemma hdr_400_neq_404: "http_400_hdr \<noteq> http_404_hdr"
  by (simp add: http_400_hdr_def http_404_hdr_def)

lemma sent_400:
  "sent [Log_serving clientfd running, Await [Recvmsg clientfd BUF_SIZE [MSG_NOSIGNAL]],
         Log_unsupported buf,
         Await [Sendmsg clientfd (Bytes http_400_hdr) [MSG_NOSIGNAL] False]] =
   [(clientfd, Bytes http_400_hdr)]"
  by (simp add: sent_Cons sent_Nil ops_of_simps sent_of_simps)

lemma env_getx_serve:
  "serve env_getx 5 1 =
     ([Log_serving 5 1, Await [Recvmsg 5 BUF_SIZE [MSG_NOSIGNAL]], Log_request ''.'' 5,
       Openat ''.'', Fstat 7, Log_not_found ''.'',
       Await [Sendmsg 5 (Bytes http_404_hdr) [MSG_NOSIGNAL] False], Close 7],
      Inr ())"
proof -
  have h1: "take 3 (''GETX / HTTP/1.1'' @ CRLF @ CRLF) = ''GET''" by simp
  have hs: "http_send_file env_getx ''.'' 5 =
     ([Openat ''.'', Fstat 7, Log_not_found ''.'',
       Await [Sendmsg 5 (Bytes http_404_hdr) [MSG_NOSIGNAL] False], Close 7], Inr ())"
    by (simp add: http_send_file_def Let_def c_str_def env_getx_def send_404_def)
  show ?thesis
    using serve_GET [OF env_getx_received h1 env_getx_request, of 5 1] by (simp add: hs)
qed

subsection \<open>What the responder reads of the environment\<close>

lemma send_windows_cong:
  "when_all_res e' = when_all_res e \<Longrightarrow>
   send_windows e' infd clientfd sz offset = send_windows e infd clientfd sz offset"
proof (induction e infd clientfd sz offset rule: send_windows.induct)
  case (1 e infd clientfd sz offset)
  show ?case
  proof (cases "sz - offset > int BUF_SIZE")
    case True
    show ?thesis
    proof (cases "when_all_res e offset")
      case None
      then have "send_windows e' infd clientfd sz (offset + int BUF_SIZE) =
          send_windows e infd clientfd sz (offset + int BUF_SIZE)"
        using "1.IH" [OF True None "1.prems"] by simp
      then show ?thesis
        using True None "1.prems"
        by (simp add: send_windows.simps [of e' infd clientfd sz offset]
            send_windows.simps [of e infd clientfd sz offset])
    next
      case (Some x)
      then show ?thesis
        using True "1.prems"
        by (simp add: send_windows.simps [of e' infd clientfd sz offset]
            send_windows.simps [of e infd clientfd sz offset])
    qed
  next
    case False
    then show ?thesis
      by (simp add: send_windows.simps [of e' infd clientfd sz offset]
          send_windows.simps [of e infd clientfd sz offset])
  qed
qed

lemma send_body_received:
  "send_body (e \<lparr> recvmsg_res := n, buffer := b \<rparr>) infd clientfd sz =
   send_body e infd clientfd sz"
  using send_windows_cong [of "e \<lparr> recvmsg_res := n, buffer := b \<rparr>" e infd clientfd sz 0]
  by (simp add: send_body_def cong: sum.case_cong prod.case_cong if_cong)

lemma contentType_received:
  "contentType (e \<lparr> recvmsg_res := n, buffer := b \<rparr>) filename = contentType e filename"
  by (simp add: contentType_def cong: sum.case_cong)

text \<open>The responder does not depend on what was received, but for the file name.\<close>

lemma http_send_file_received:
  "http_send_file (e \<lparr> recvmsg_res := n, buffer := b \<rparr>) filename clientfd =
   http_send_file e filename clientfd"
  by (simp add: http_send_file_def Let_def send_body_received contentType_received
      cong: sum.case_cong option.case_cong if_cong)

lemma http_send_file_root:
  "http_send_file e ''./'' clientfd = http_send_file e ''./index.html'' clientfd"
  by (simp add: http_send_file_def Let_def)

lemma send_windows_10: "send_windows env_index 7 5 10 0 = ([], Inr 0)"
  by (simp add: send_windows.simps [of env_index 7 5 10 0] BUF_SIZE_def)

lemma env_index_responder:
  "http_send_file env_index ''./index.html'' 5 =
     ([Openat ''./index.html'', Fstat 7,
       Await [Sendmsg 5 (Bytes (http_200_hdr ''text/html'' 10)) [MSG_NOSIGNAL, MSG_MORE] False],
       Await [Readv 7 10 0, Sendmsg 5 (Filebuf 10) [MSG_NOSIGNAL] True],
       Close 7],
      Inr ())"
proof -
  have ct: "contentType env_index ''./index.html'' = Inr ''text/html''"
    by (simp add: contentType_def sv_find_last_of_def sv_substr_def npos_def env_index_def)
  have sb: "send_body env_index 7 5 10 =
      ([Await [Readv 7 10 0, Sendmsg 5 (Filebuf 10) [MSG_NOSIGNAL] True]], Inr ())"
    by (simp add: send_body_def send_windows_10 window_def) (simp add: env_index_def)
  have h4: "openat_res env_index (c_str ''./index.html'') = Some 7"
    by (simp add: env_index_def c_str_def)
  have h6: "fstat_res env_index 7 = Some \<lparr> st_isreg = True, st_size = 10 \<rparr>"
    by (simp add: env_index_def)
  show ?thesis
    using http_send_file_regular [OF _ h4 _ h6 _ ct, of "''./index.html''" 5]
    by (simp add: sb c_str_def)
qed

subsection \<open>The events of the responder and of serve\<close>

lemma send_windows_events:
  "ev \<in> set (fst (send_windows e infd clientfd sz offset)) \<Longrightarrow> \<exists>sqes. ev = Await sqes"
proof (induction e infd clientfd sz offset rule: send_windows.induct)
  case (1 e infd clientfd sz offset)
  show ?case
  proof (cases "sz - offset > int BUF_SIZE")
    case True
    show ?thesis
    proof (cases "when_all_res e offset")
      case None
      then show ?thesis
        using True "1.prems" "1.IH" [OF True None]
        by (auto simp: send_windows.simps [of e infd clientfd sz offset] window_def
            split: prod.splits)
    next
      case (Some x)
      then show ?thesis
        using True "1.prems"
        by (simp add: send_windows.simps [of e infd clientfd sz offset] window_def)
    qed
  next
    case False
    then show ?thesis
      using "1.prems" by (simp add: send_windows.simps [of e infd clientfd sz offset])
  qed
qed

lemma send_body_events:
  assumes "ev \<in> set (fst (send_body e infd clientfd sz))"
  shows "\<exists>sqes. ev = Await sqes"
proof -
  obtain tr r where sw: "send_windows e infd clientfd sz 0 = (tr, r)"
    by (cases "send_windows e infd clientfd sz 0")
  have tr: "\<And>ev. ev \<in> set tr \<Longrightarrow> \<exists>sqes. ev = Await sqes"
    using send_windows_events [of _ e infd clientfd sz 0] by (simp add: sw)
  show ?thesis
  proof (cases r)
    case (Inl x)
    then show ?thesis using assms tr by (simp add: send_body_def sw)
  next
    case (Inr off')
    then show ?thesis
      using assms tr by (auto simp: send_body_def sw window_def split: if_splits)
  qed
qed

lemma send_body_events_pair:
  "send_body e infd clientfd sz = (tr, r) \<Longrightarrow> ev \<in> set tr \<Longrightarrow> \<exists>sqes. ev = Await sqes"
  using send_body_events [of ev e infd clientfd sz] by simp

text \<open>The only descriptor the responder closes is the one \<open>openat\<close> gave it.\<close>

lemma http_send_file_events:
  assumes "ev \<in> set (fst (http_send_file e filename0 clientfd))"
  shows "ev \<noteq> Incr_runningCoroutines \<and> ev \<noteq> Decr_runningCoroutines \<and>
     (\<forall>f. ev = Close f \<longrightarrow>
        openat_res e (c_str (if filename0 = ''./'' then ''./index.html'' else filename0)) =
          Some f)"
  using assms
  by (auto simp: http_send_file_def Let_def send_404_def
      split: if_splits option.splits sum.splits prod.splits
      dest: send_body_events_pair)

lemma serve_events:
  assumes "ev \<in> set (fst (serve e clientfd running))"
    and "\<forall>p. openat_res e p \<noteq> Some clientfd"
  shows "ev \<noteq> Incr_runningCoroutines \<and> ev \<noteq> Decr_runningCoroutines \<and>
     ev \<noteq> Close clientfd"
proof (cases "received e")
  case None
  then show ?thesis using assms(1) by (auto simp: serve_undefined)
next
  case (Some buf)
  show ?thesis
  proof (cases "take 3 buf = ''GET''")
    case False
    then show ?thesis using assms(1) by (auto simp: serve_not_GET [OF Some])
  next
    case True
    show ?thesis
    proof (cases "request_file buf")
      case (Inl x)
      then show ?thesis using assms(1) by (auto simp: serve_parse_fails [OF Some True])
    next
      case (Inr path)
      have "ev \<in> {Log_serving clientfd running,
          Await [Recvmsg clientfd BUF_SIZE [MSG_NOSIGNAL]], Log_request path clientfd} \<or>
          ev \<in> set (fst (http_send_file e path clientfd))"
        using assms(1) by (auto simp: serve_GET [OF Some True Inr])
      then show ?thesis
        using http_send_file_events [of ev e path clientfd] assms(2) by auto
    qed
  qed
qed

lemma count_list_absent: "x \<notin> set xs \<Longrightarrow> count_list xs x = 0"
  by (simp add: count_list_0_iff)

lemma env_broken_serve:
  "serve env_broken 5 1 =
     ([Log_serving 5 1, Await [Recvmsg 5 BUF_SIZE [MSG_NOSIGNAL]],
       Log_request ''./a.txt'' 5, Openat ''./a.txt'', Fstat 7,
       Await [Sendmsg 5 (Bytes (http_200_hdr ''text/plain'' 2000)) [MSG_NOSIGNAL, MSG_MORE] False],
       Await [Readv 7 1024 0, Sendmsg 5 (Filebuf 1024) [MSG_NOSIGNAL, MSG_MORE] True],
       Await [Delay 1],
       Await [Readv 7 976 1024, Sendmsg 5 (Filebuf 976) [MSG_NOSIGNAL] True],
       Close 7],
      Inl (Thrown (system_error 32)))"
proof -
  have h1: "take 3 (''GET /a.txt HTTP/1.1'' @ CRLF @ CRLF) = ''GET''" by simp
  have nf0: "when_all_res env_broken 0 = None" by (simp add: env_broken_def)
  have w1: "send_windows env_broken 7 5 2000 1024 = ([], Inr 1024)"
    by (simp add: send_windows.simps [of env_broken 7 5 2000 1024] BUF_SIZE_def)
  have w0: "send_windows env_broken 7 5 2000 0 =
      ([Await [Readv 7 1024 0, Sendmsg 5 (Filebuf 1024) [MSG_NOSIGNAL, MSG_MORE] True],
        Await [Delay 1]], Inr 1024)"
    by (simp add: send_windows.simps [of env_broken 7 5 2000 0] BUF_SIZE_def window_def
        nf0 w1 [unfolded BUF_SIZE_def])
  have sb: "send_body env_broken 7 5 2000 =
      ([Await [Readv 7 1024 0, Sendmsg 5 (Filebuf 1024) [MSG_NOSIGNAL, MSG_MORE] True],
        Await [Delay 1],
        Await [Readv 7 976 1024, Sendmsg 5 (Filebuf 976) [MSG_NOSIGNAL] True]],
       Inl (Thrown (system_error 32)))"
    by (simp add: send_body_def w0 window_def) (simp add: env_broken_def)
  have ct: "contentType env_broken ''./a.txt'' = Inr ''text/plain''"
    by (simp add: contentType_def sv_find_last_of_def sv_substr_def npos_def env_broken_def
        env_example_def)
  have h4: "openat_res env_broken (c_str ''./a.txt'') = Some 7"
    by (simp add: env_broken_def env_example_def c_str_def)
  have h6: "fstat_res env_broken 7 = Some \<lparr> st_isreg = True, st_size = 2000 \<rparr>"
    by (simp add: env_broken_def env_example_def)
  have hs: "http_send_file env_broken ''./a.txt'' 5 =
     ([Openat ''./a.txt'', Fstat 7,
       Await [Sendmsg 5 (Bytes (http_200_hdr ''text/plain'' 2000)) [MSG_NOSIGNAL, MSG_MORE] False],
       Await [Readv 7 1024 0, Sendmsg 5 (Filebuf 1024) [MSG_NOSIGNAL, MSG_MORE] True],
       Await [Delay 1],
       Await [Readv 7 976 1024, Sendmsg 5 (Filebuf 976) [MSG_NOSIGNAL] True],
       Close 7],
      Inl (Thrown (system_error 32)))"
    using http_send_file_regular [OF _ h4 _ h6 _ ct, of "''./a.txt''" 5]
    by (simp add: sb c_str_def)
  show ?thesis
    using serve_GET [OF env_broken_received h1 env_example_request, of 5 1]
    by (simp add: hs)
qed

subsection \<open>Timelines\<close>

lemma timeline_Nil: "timeline [] = []"
  and timeline_Cons: "timeline (ev # tr) = timeline_of ev @ timeline tr"
  and timeline_append: "timeline (tr @ tr') = timeline tr @ timeline tr'"
  by (simp_all add: timeline_def)

lemma timeline_of_Await: "timeline_of (Await sqes) = map Submit sqes @ map Complete sqes"
  by (simp add: timeline_of_def)

lemma submitted_Nil: "submitted [] = []"
  and submitted_append: "submitted (t @ t') = submitted t @ submitted t'"
  and completed_Nil: "completed [] = []"
  and completed_append: "completed (t @ t') = completed t @ completed t'"
  by (simp_all add: submitted_def completed_def)

lemma submitted_map:
  "submitted (map Submit sqes) = filter uses_filebuf sqes"
  "submitted (map Complete sqes) = []"
  "completed (map Complete sqes) = filter uses_filebuf sqes"
  "completed (map Submit sqes) = []"
  by (induction sqes) (simp_all add: submitted_def completed_def)

text \<open>Every event leaves the buffer as quiet as it found it.\<close>

lemma timeline_of_balanced: "submitted (timeline_of ev) = completed (timeline_of ev)"
  by (cases ev) (simp_all add: timeline_of_def submitted_append completed_append submitted_map,
      simp_all add: submitted_def completed_def)

text \<open>Where a read can stand in the timeline of one well-paired event: at its head.\<close>

lemma read_in_block:
  assumes "well_paired ev"
    and "timeline_of ev = p @ Submit (Readv f n off) # q"
  shows "p = [] \<and> (\<exists>c fl. q = [Submit (Sendmsg c (Filebuf n) fl True),
      Complete (Readv f n off), Complete (Sendmsg c (Filebuf n) fl True)])"
proof (cases "\<exists>f n off c fl. ev = Await [Readv f n off, Sendmsg c (Filebuf n) fl True]")
  case True
  then obtain f' n' off' c fl
    where ev: "ev = Await [Readv f' n' off', Sendmsg c (Filebuf n') fl True]" by blast
  have "[Submit (Readv f' n' off'), Submit (Sendmsg c (Filebuf n') fl True),
      Complete (Readv f' n' off'), Complete (Sendmsg c (Filebuf n') fl True)] =
      p @ Submit (Readv f n off) # q"
    using assms(2) by (simp add: ev timeline_of_Await)
  then show ?thesis
    by (auto simp: Cons_eq_append_conv)
next
  case False
  then have quiet: "list_all (\<lambda>op. \<not> uses_filebuf op) (ops_of ev)"
    using assms(1) by (simp add: well_paired_def)
  have "Submit (Readv f n off) \<in> set (timeline_of ev)"
    using assms(2) by simp
  then have "Readv f n off \<in> set (ops_of ev)"
    by (cases ev) (auto simp: timeline_of_def ops_of_def)
  then have "\<not> uses_filebuf (Readv f n off)"
    using quiet by (simp add: list_all_iff)
  then show ?thesis by (simp add: uses_filebuf_def)
qed

lemma append_eq_split:
  assumes "xs @ ys = pre @ x # post"
  shows "(\<exists>q. xs = pre @ x # q \<and> post = q @ ys) \<or> (\<exists>p. pre = xs @ p \<and> ys = p @ x # post)"
  using assms by (auto simp: append_eq_append_conv2 append_eq_Cons_conv)

text \<open>
  In the timeline of well-paired events, a read is submitted only when every operation
  on the buffer submitted before it has completed, and what follows it at once is the
  submission of its linked send and the completion of both.
\<close>

lemma read_at_rest:
  assumes "\<forall>ev \<in> set tr. well_paired ev"
    and "timeline tr = pre @ Submit (Readv f n off) # post"
  shows "submitted pre = completed pre \<and>
     (\<exists>c fl. take 3 post = [Submit (Sendmsg c (Filebuf n) fl True),
        Complete (Readv f n off), Complete (Sendmsg c (Filebuf n) fl True)])"
  using assms
proof (induction tr arbitrary: pre)
  case Nil
  then show ?case by (simp add: timeline_Nil)
next
  case (Cons ev tr)
  have eq: "timeline_of ev @ timeline tr = pre @ Submit (Readv f n off) # post"
    using Cons.prems(2) by (simp add: timeline_Cons)
  from append_eq_split [OF eq] show ?case
  proof
    assume "\<exists>q. timeline_of ev = pre @ Submit (Readv f n off) # q \<and> post = q @ timeline tr"
    then obtain q where b: "timeline_of ev = pre @ Submit (Readv f n off) # q"
      and p: "post = q @ timeline tr" by blast
    have "well_paired ev" using Cons.prems(1) by simp
    from read_in_block [OF this b] show ?thesis
      by (auto simp: p submitted_Nil completed_Nil)
  next
    assume "\<exists>p. pre = timeline_of ev @ p \<and> timeline tr = p @ Submit (Readv f n off) # post"
    then obtain p where pre: "pre = timeline_of ev @ p"
      and t: "timeline tr = p @ Submit (Readv f n off) # post" by blast
    have "\<forall>ev \<in> set tr. well_paired ev" using Cons.prems(1) by simp
    from Cons.IH [OF this t] show ?thesis
      by (simp add: pre submitted_append completed_append timeline_of_balanced)
  qed
qed

lemma well_paired_window: "well_paired (window infd clientfd len offset flags)"
  by (simp add: well_paired_def window_def)

lemma well_paired_basic:
  "well_paired (Openat p)" "well_paired (Fstat f)" "well_paired (Close f)"
  "well_paired Incr_runningCoroutines" "well_paired Decr_runningCoroutines"
  "well_paired (Log_serving f k)" "well_paired (Log_request p f)"
  "well_paired (Log_unsupported p)" "well_paired (Log_not_found p)"
  "well_paired (Log_crashed f x)" "well_paired (Log_closed f)"
  "well_paired (Await [Sendmsg f (Bytes b) fl lnk])"
  "well_paired (Await [Recvmsg f n fl])" "well_paired (Await [Delay d])"
  by (simp_all add: well_paired_def ops_of_def uses_filebuf_def)

lemma send_windows_paired:
  "ev \<in> set (fst (send_windows e infd clientfd sz offset)) \<Longrightarrow> well_paired ev"
proof (induction e infd clientfd sz offset rule: send_windows.induct)
  case (1 e infd clientfd sz offset)
  have d: "well_paired (Await [Delay 1])"
    by (rule well_paired_basic)
  show ?case
  proof (cases "sz - offset > int BUF_SIZE")
    case True
    show ?thesis
    proof (cases "when_all_res e offset")
      case None
      then show ?thesis
        using True "1.prems" "1.IH" [OF True None] d
        by (auto simp: send_windows.simps [of e infd clientfd sz offset] well_paired_window
            split: prod.splits)
    next
      case (Some x)
      then show ?thesis
        using True "1.prems"
        by (simp add: send_windows.simps [of e infd clientfd sz offset] well_paired_window)
    qed
  next
    case False
    then show ?thesis
      using "1.prems" by (simp add: send_windows.simps [of e infd clientfd sz offset])
  qed
qed

lemma send_body_paired:
  assumes "send_body e infd clientfd sz = (tr, r)" and "ev \<in> set tr"
  shows "well_paired ev"
proof -
  obtain tr0 r0 where sw: "send_windows e infd clientfd sz 0 = (tr0, r0)"
    by (cases "send_windows e infd clientfd sz 0")
  have tr0: "\<And>ev. ev \<in> set tr0 \<Longrightarrow> well_paired ev"
    using send_windows_paired [of _ e infd clientfd sz 0] by (simp add: sw)
  show ?thesis
  proof (cases r0)
    case (Inl x)
    then show ?thesis using assms tr0 by (auto simp: send_body_def sw)
  next
    case (Inr off')
    then show ?thesis
      using assms tr0 by (auto simp: send_body_def sw well_paired_window split: if_splits)
  qed
qed

lemma http_send_file_paired:
  assumes "ev \<in> set (fst (http_send_file e filename0 clientfd))"
  shows "well_paired ev"
  using assms
  by (auto simp: http_send_file_def Let_def send_404_def well_paired_basic
      split: if_splits option.splits sum.splits prod.splits
      dest: send_body_paired)

lemma serve_paired:
  assumes "ev \<in> set (fst (serve e clientfd running))"
  shows "well_paired ev"
proof (cases "received e")
  case None
  then show ?thesis using assms by (auto simp: serve_undefined well_paired_basic)
next
  case (Some buf)
  show ?thesis
  proof (cases "take 3 buf = ''GET''")
    case False
    then show ?thesis
      using assms by (auto simp: serve_not_GET [OF Some] well_paired_basic)
  next
    case True
    show ?thesis
    proof (cases "request_file buf")
      case (Inl x)
      then show ?thesis
        using assms by (auto simp: serve_parse_fails [OF Some True] well_paired_basic)
    next
      case (Inr path)
      have "ev \<in> {Log_serving clientfd running,
          Await [Recvmsg clientfd BUF_SIZE [MSG_NOSIGNAL]], Log_request path clientfd} \<or>
          ev \<in> set (fst (http_send_file e path clientfd))"
        using assms by (auto simp: serve_GET [OF Some True Inr])
      then show ?thesis
        using http_send_file_paired [of ev e path clientfd]
        by (auto simp: well_paired_basic)
    qed
  qed
qed

lemma connection_handler_returns:
  assumes "serve e clientfd (running + 1) = (tr, Inr u)"
  shows "connection_handler e clientfd running =
     (Incr_runningCoroutines # tr
        @ [Close clientfd, Log_closed clientfd, Decr_runningCoroutines],
      running, Inr ())"
  using assms by (simp add: connection_handler_def Let_def)

lemma connection_handler_catches:
  assumes "serve e clientfd (running + 1) = (tr, Inl (Thrown x))"
  shows "connection_handler e clientfd running =
     (Incr_runningCoroutines # tr
        @ [Log_crashed clientfd x, Close clientfd, Log_closed clientfd,
           Decr_runningCoroutines],
      running, Inr ())"
  using assms by (simp add: connection_handler_def Let_def)

lemma connection_handler_blocked:
  assumes "serve e clientfd (running + 1) = (tr, Inl Blocked)"
  shows "connection_handler e clientfd running =
     (Incr_runningCoroutines # tr, running + 1, Inl Blocked)"
  using assms by (simp add: connection_handler_def Let_def)


lemma connection_handler_paired:
  assumes "ev \<in> set (fst (connection_handler e clientfd running))"
  shows "well_paired ev"
proof -
  obtain str r where sv: "serve e clientfd (running + 1) = (str, r)"
    by (cases "serve e clientfd (running + 1)")
  have "\<And>ev. ev \<in> set str \<Longrightarrow> well_paired ev"
    using serve_paired [of _ e clientfd "running + 1"] by (simp add: sv)
  then show ?thesis
    using assms
    by (auto simp: connection_handler_def Let_def sv well_paired_basic
        split: sum.splits stop.splits)
qed

lemma env_example_serve:
  "serve env_example 5 1 =
     ([Log_serving 5 1, Await [Recvmsg 5 BUF_SIZE [MSG_NOSIGNAL]],
       Log_request ''./a.txt'' 5, Openat ''./a.txt'', Fstat 7,
       Await [Sendmsg 5 (Bytes (http_200_hdr ''text/plain'' 2000)) [MSG_NOSIGNAL, MSG_MORE] False],
       Await [Readv 7 1024 0, Sendmsg 5 (Filebuf 1024) [MSG_NOSIGNAL, MSG_MORE] True],
       Await [Delay 1],
       Await [Readv 7 976 1024, Sendmsg 5 (Filebuf 976) [MSG_NOSIGNAL] True],
       Close 7],
      Inr ())"
proof -
  have h1: "take 3 (''GET /a.txt HTTP/1.1'' @ CRLF @ CRLF) = ''GET''" by simp
  have nf: "\<And>off. when_all_res env_example off = None" by (simp add: env_example_def)
  have w1: "send_windows env_example 7 5 2000 1024 = ([], Inr 1024)"
    by (simp add: send_windows.simps [of env_example 7 5 2000 1024] BUF_SIZE_def)
  have w0: "send_windows env_example 7 5 2000 0 =
      ([Await [Readv 7 1024 0, Sendmsg 5 (Filebuf 1024) [MSG_NOSIGNAL, MSG_MORE] True],
        Await [Delay 1]], Inr 1024)"
    by (simp add: send_windows.simps [of env_example 7 5 2000 0] BUF_SIZE_def window_def
        nf w1 [unfolded BUF_SIZE_def])
  have sb: "send_body env_example 7 5 2000 =
      ([Await [Readv 7 1024 0, Sendmsg 5 (Filebuf 1024) [MSG_NOSIGNAL, MSG_MORE] True],
        Await [Delay 1],
        Await [Readv 7 976 1024, Sendmsg 5 (Filebuf 976) [MSG_NOSIGNAL] True]],
       Inr ())"
    by (simp add: send_body_def w0 window_def nf)
  have ct: "contentType env_example ''./a.txt'' = Inr ''text/plain''"
    by (simp add: contentType_def sv_find_last_of_def sv_substr_def npos_def env_example_def)
  have h4: "openat_res env_example (c_str ''./a.txt'') = Some 7"
    by (simp add: env_example_def c_str_def)
  have h6: "fstat_res env_example 7 = Some \<lparr> st_isreg = True, st_size = 2000 \<rparr>"
    by (simp add: env_example_def)
  have hs: "http_send_file env_example ''./a.txt'' 5 =
     ([Openat ''./a.txt'', Fstat 7,
       Await [Sendmsg 5 (Bytes (http_200_hdr ''text/plain'' 2000)) [MSG_NOSIGNAL, MSG_MORE] False],
       Await [Readv 7 1024 0, Sendmsg 5 (Filebuf 1024) [MSG_NOSIGNAL, MSG_MORE] True],
       Await [Delay 1],
       Await [Readv 7 976 1024, Sendmsg 5 (Filebuf 976) [MSG_NOSIGNAL] True],
       Close 7],
      Inr ())"
    using http_send_file_regular [OF _ h4 _ h6 _ ct, of "''./a.txt''" 5]
    by (simp add: sb c_str_def)
  show ?thesis
    using serve_GET [OF env_example_received h1 env_example_request, of 5 1]
    by (simp add: hs)
qed

lemma env_example_timeline:
  "timeline (fst (connection_handler env_example 5 0)) =
     [Step Incr_runningCoroutines, Step (Log_serving 5 1),
      Submit (Recvmsg 5 BUF_SIZE [MSG_NOSIGNAL]), Complete (Recvmsg 5 BUF_SIZE [MSG_NOSIGNAL]),
      Step (Log_request ''./a.txt'' 5), Step (Openat ''./a.txt''), Step (Fstat 7),
      Submit (Sendmsg 5 (Bytes (http_200_hdr ''text/plain'' 2000)) [MSG_NOSIGNAL, MSG_MORE] False),
      Complete (Sendmsg 5 (Bytes (http_200_hdr ''text/plain'' 2000)) [MSG_NOSIGNAL, MSG_MORE] False),
      Submit (Readv 7 1024 0),
      Submit (Sendmsg 5 (Filebuf 1024) [MSG_NOSIGNAL, MSG_MORE] True),
      Complete (Readv 7 1024 0),
      Complete (Sendmsg 5 (Filebuf 1024) [MSG_NOSIGNAL, MSG_MORE] True),
      Submit (Delay 1), Complete (Delay 1)]
     @ Submit (Readv 7 976 1024)
     # [Submit (Sendmsg 5 (Filebuf 976) [MSG_NOSIGNAL] True),
        Complete (Readv 7 976 1024),
        Complete (Sendmsg 5 (Filebuf 976) [MSG_NOSIGNAL] True),
        Step (Close 7), Step (Close 5), Step (Log_closed 5), Step Decr_runningCoroutines]"
  by (simp add: connection_handler_def env_example_serve timeline_def timeline_of_def)

lemma env_example_contentType: "contentType env_example ''./a.txt'' = Inr ''text/plain''"
  by (simp add: contentType_def sv_find_last_of_def sv_substr_def npos_def env_example_def)

lemma env_index_named_received:
  "received env_index_named = Some (''GET /index.html HTTP/1.1'' @ CRLF @ CRLF)"
  by (simp add: received_def size_t_def env_index_named_def CRLF_def BUF_SIZE_def)

subsection \<open>When the handler comes to an end\<close>

lemma send_windows_stop:
  "snd (send_windows e infd clientfd sz offset) = Inl s \<Longrightarrow> \<exists>x. s = Thrown x"
proof (induction e infd clientfd sz offset rule: send_windows.induct)
  case (1 e infd clientfd sz offset)
  show ?case
  proof (cases "sz - offset > int BUF_SIZE")
    case True
    show ?thesis
    proof (cases "when_all_res e offset")
      case None
      then show ?thesis
        using True "1.prems" "1.IH" [OF True None]
        by (auto simp: send_windows.simps [of e infd clientfd sz offset] split: prod.splits)
    next
      case (Some x)
      then show ?thesis
        using True "1.prems"
        by (auto simp: send_windows.simps [of e infd clientfd sz offset])
    qed
  next
    case False
    then show ?thesis
      using "1.prems" by (simp add: send_windows.simps [of e infd clientfd sz offset])
  qed
qed

lemma send_body_stop:
  assumes "send_body e infd clientfd sz = (tr, Inl s)"
  shows "\<exists>x. s = Thrown x"
proof -
  obtain tr0 r0 where sw: "send_windows e infd clientfd sz 0 = (tr0, r0)"
    by (cases "send_windows e infd clientfd sz 0")
  show ?thesis
  proof (cases r0)
    case (Inl s0)
    then have "s = s0" using assms by (simp add: send_body_def sw)
    then show ?thesis
      using send_windows_stop [of e infd clientfd sz 0 s0] Inl by (simp add: sw)
  next
    case (Inr off')
    then show ?thesis
      using assms by (auto simp: send_body_def sw split: if_splits option.splits)
  qed
qed

text \<open>The responder does not come to an end only when the open does not return.\<close>

lemma http_send_file_stop:
  assumes "snd (http_send_file e filename0 clientfd) = Inl s"
  shows "(\<exists>x. s = Thrown x) \<or>
     (s = Blocked \<and>
      openat_res e (c_str (if filename0 = ''./'' then ''./index.html'' else filename0)) = None)"
  using assms
  by (auto simp: http_send_file_def Let_def
      split: if_splits option.splits sum.splits prod.splits
      dest: send_body_stop)

text \<open>The behaviour of \<open>serve\<close> is undefined only after a receive that left no valid view.\<close>

lemma serve_undefined_iff:
  "snd (serve e clientfd running) = Inl Undefined \<longleftrightarrow> received e = None"
proof
  assume u: "snd (serve e clientfd running) = Inl Undefined"
  show "received e = None"
  proof (cases "received e")
    case None
    then show ?thesis .
  next
    case (Some buf)
    show ?thesis
    proof (cases "take 3 buf = ''GET''")
      case False
      then show ?thesis using u by (simp add: serve_not_GET [OF Some])
    next
      case True
      show ?thesis
      proof (cases "request_file buf")
        case (Inl x)
        then show ?thesis using u by (simp add: serve_parse_fails [OF Some True])
      next
        case (Inr path)
        then have "snd (http_send_file e path clientfd) = Inl Undefined"
          using u by (simp add: serve_GET [OF Some True Inr])
        then show ?thesis using http_send_file_stop [of e path clientfd Undefined] by simp
      qed
    qed
  qed
next
  assume "received e = None"
  then show "snd (serve e clientfd running) = Inl Undefined"
    by (simp add: serve_undefined)
qed

text \<open>
  Whenever \<open>serve\<close> returns or throws, the handler closes the connection descriptor once,
  decrements the counter once, logs the exception if there was one and ends normally.
  The kernel hands out no descriptor that is still open, so \<open>openat\<close> never returns the
  connection's.
\<close>

lemma handler_cleanup_on_exit:
  assumes "\<forall>p. openat_res e p \<noteq> Some clientfd"
    and "snd (serve e clientfd (running + 1)) \<noteq> Inl Blocked"
    and "snd (serve e clientfd (running + 1)) \<noteq> Inl Undefined"
  shows "\<exists>tr mid.
     connection_handler e clientfd running = (tr, running, Inr ()) \<and>
     tr = Incr_runningCoroutines # mid
            @ [Close clientfd, Log_closed clientfd, Decr_runningCoroutines] \<and>
     count_list tr (Close clientfd) = 1 \<and>
     count_list tr Decr_runningCoroutines = 1 \<and>
     count_list tr Incr_runningCoroutines = 1 \<and>
     (\<forall>x. snd (serve e clientfd (running + 1)) = Inl (Thrown x) \<longrightarrow>
        mid = fst (serve e clientfd (running + 1)) @ [Log_crashed clientfd x])"
proof -
  obtain str r where sv: "serve e clientfd (running + 1) = (str, r)"
    by (cases "serve e clientfd (running + 1)")
  define crash where
    "crash = (case r of Inl (Thrown x) \<Rightarrow> [Log_crashed clientfd x] | _ \<Rightarrow> [])"
  define tr where "tr = Incr_runningCoroutines # (str @ crash)
      @ [Close clientfd, Log_closed clientfd, Decr_runningCoroutines]"
  have ch: "connection_handler e clientfd running = (tr, running, Inr ())"
    using assms(2,3)
    by (auto simp: connection_handler_def Let_def sv tr_def crash_def
        split: sum.splits stop.splits)
  have ev: "\<And>ev. ev \<in> set str \<Longrightarrow>
      ev \<noteq> Incr_runningCoroutines \<and> ev \<noteq> Decr_runningCoroutines \<and> ev \<noteq> Close clientfd"
    using serve_events [of _ e clientfd "running + 1", OF _ assms(1)] by (simp add: sv)
  have s0: "count_list str (Close clientfd) = 0" "count_list str Decr_runningCoroutines = 0"
    "count_list str Incr_runningCoroutines = 0"
    using ev by (auto intro!: count_list_absent)
  have c0: "count_list crash (Close clientfd) = 0" "count_list crash Decr_runningCoroutines = 0"
    "count_list crash Incr_runningCoroutines = 0"
    by (auto simp: crash_def split: sum.splits stop.splits)
  have n1: "count_list tr (Close clientfd) = 1" by (simp add: tr_def s0 c0)
  have n2: "count_list tr Decr_runningCoroutines = 1" by (simp add: tr_def s0 c0)
  have n3: "count_list tr Incr_runningCoroutines = 1" by (simp add: tr_def s0 c0)
  have lg: "\<forall>x. snd (serve e clientfd (running + 1)) = Inl (Thrown x) \<longrightarrow>
        str @ crash = fst (serve e clientfd (running + 1)) @ [Log_crashed clientfd x]"
    by (simp add: sv crash_def)
  show ?thesis
    using ch n1 n2 n3 lg tr_def by blast
qed

text \<open>
  When the open returns and the name is not that of a file to serve (the open failed,
  or \<open>fstat\<close> failed, or the file is not a regular one), the answer is the fixed 404
  payload and nothing else.
\<close>

lemma serve_not_found_404:
  assumes "received e = Some buf" and "take 3 buf = ''GET''"
    and "request_file buf = Inr file"
    and "filename = (if file = ''./'' then ''./index.html'' else file)"
    and "openat_res e (c_str filename) = Some infd"
    and "infd < 0 \<or> fstat_res e infd = None \<or>
         (\<exists>st. fstat_res e infd = Some st \<and> \<not> st_isreg st)"
  shows "snd (http_send_file e file clientfd) = Inr () \<and>
     snd (serve e clientfd running) = Inr () \<and>
     sent (fst (serve e clientfd running)) = [(clientfd, Bytes http_404_hdr)] \<and>
     reads (fst (serve e clientfd running)) = []"
proof -
  have hs: "http_send_file e file clientfd =
     (Openat (c_str filename) # (if infd < 0 then [] else [Fstat infd])
        @ [Log_not_found filename,
           Await [Sendmsg clientfd (Bytes http_404_hdr) [MSG_NOSIGNAL] False],
           Close infd],
      Inr ())"
    by (rule http_send_file_not_found [OF assms(4) assms(5) assms(6)])
  have sv: "serve e clientfd running =
     ([Log_serving clientfd running, Await [Recvmsg clientfd BUF_SIZE [MSG_NOSIGNAL]],
       Log_request file clientfd] @ fst (http_send_file e file clientfd),
      snd (http_send_file e file clientfd))"
    by (rule serve_GET [OF assms(1) assms(2) assms(3)])
  show ?thesis
    by (simp add: sv hs sent_Cons sent_append sent_Nil reads_Cons
        reads_append reads_Nil ops_of_simps sent_of_simps read_of_simps)
qed

section \<open>The claims\<close>

text \<open>
  C1. A GET request that names an existing regular file of \<open>S\<close> bytes is served to the
  end; what is sent to the client is the status-200 header, whose Content-Length value is
  the decimal numeral of \<open>S\<close>, followed by the windows of the specification for the
  capacity \<open>BUF_SIZE\<close>: \<open>S div BUF_SIZE\<close> full ones, then one of \<open>S mod BUF_SIZE\<close> bytes when
  that is not zero, and none when \<open>S\<close> is zero. The file is read at the offsets and in
  the lengths of the same windows, and the lengths add up to \<open>S\<close>.
\<close>

theorem C1_content_length_and_windows:
  assumes "received e = Some buf" and "take 3 buf = ''GET''"
    and "request_file buf = Inr file"
    and "filename = (if file = ''./'' then ''./index.html'' else file)"
    and "openat_res e (c_str filename) = Some infd" and "0 \<le> infd"
    and "fstat_res e infd = Some st" and "st_isreg st" and "st_size st = int S"
    and "\<forall>off. when_all_res e off = None"
  shows "\<exists>ctype. contentType e filename = Inr ctype \<and>
     snd (serve e clientfd running) = Inr () \<and>
     sent (fst (serve e clientfd running)) =
       (clientfd, Bytes (http_200_hdr ctype (int S)))
         # map (\<lambda>(off, len). (clientfd, Filebuf len)) (spec_windows BUF_SIZE S) \<and>
     reads (fst (serve e clientfd running)) =
       map (\<lambda>(off, len). (infd, off, len)) (spec_windows BUF_SIZE S) \<and>
     http_200_hdr ctype (int S) =
       ''HTTP/1.1 200 OK'' @ CRLF @ ''Content-type: '' @ ctype @ CRLF @
       ''Content-Length: '' @ fmt_int (int S) @ CRLF @ CRLF \<and>
     read_dec (fmt_int (int S)) = S \<and>
     sum_list (map snd (spec_windows BUF_SIZE S)) = S"
proof -
  obtain ctype where ct: "contentType e filename = Inr ctype"
    using contentType_ok by blast
  obtain body where
    sb: "send_body e infd clientfd (int S) = (body, Inr ())"
    and rd: "reads body = map (\<lambda>(o', n). (infd, o', n)) (spec_windows BUF_SIZE (nat (int S)))"
    and sn: "sent body = map (\<lambda>(o', n). (clientfd, Filebuf n)) (spec_windows BUF_SIZE (nat (int S)))"
    using send_body_ok [OF assms(10), of "int S" infd clientfd] by auto
  have hs: "http_send_file e file clientfd =
     (Openat (c_str filename) # Fstat infd
        # Await [Sendmsg clientfd (Bytes (http_200_hdr ctype (int S)))
                   [MSG_NOSIGNAL, MSG_MORE] False]
        # body @ [Close infd], Inr ())"
    using http_send_file_regular [OF assms(4) assms(5) assms(6) assms(7) assms(8) ct, of clientfd]
    by (simp add: assms(9) sb)
  have sv: "serve e clientfd running =
     ([Log_serving clientfd running, Await [Recvmsg clientfd BUF_SIZE [MSG_NOSIGNAL]],
       Log_request file clientfd]
        @ Openat (c_str filename) # Fstat infd
        # Await [Sendmsg clientfd (Bytes (http_200_hdr ctype (int S)))
                   [MSG_NOSIGNAL, MSG_MORE] False]
        # body @ [Close infd], Inr ())"
    using serve_GET [OF assms(1) assms(2) assms(3), of clientfd running] by (simp add: hs)
  have s1: "sent (fst (serve e clientfd running)) =
       (clientfd, Bytes (http_200_hdr ctype (int S)))
         # map (\<lambda>(off, len). (clientfd, Filebuf len)) (spec_windows BUF_SIZE S)"
    using sn by (simp add: sv sent_Cons sent_append sent_Nil ops_of_simps sent_of_simps)
  have r1: "reads (fst (serve e clientfd running)) =
       map (\<lambda>(off, len). (infd, off, len)) (spec_windows BUF_SIZE S)"
    using rd by (simp add: sv reads_Cons reads_append reads_Nil ops_of_simps read_of_simps)
  have rdec: "read_dec (fmt_int (int S)) = S"
    by (simp add: fmt_int_def read_dec_dec_digits)
  show ?thesis
    using ct s1 r1 rdec sum_spec_windows [of BUF_SIZE S]
    by (simp add: sv http_200_hdr_def)
qed

theorem C1_witness:
  "received env_example = Some (''GET /a.txt HTTP/1.1'' @ CRLF @ CRLF) \<and>
   take 3 (''GET /a.txt HTTP/1.1'' @ CRLF @ CRLF) = ''GET'' \<and>
   request_file (''GET /a.txt HTTP/1.1'' @ CRLF @ CRLF) = Inr ''./a.txt'' \<and>
   openat_res env_example (c_str ''./a.txt'') = Some 7 \<and>
   fstat_res env_example 7 = Some \<lparr> st_isreg = True, st_size = 2000 \<rparr> \<and>
   (\<forall>off. when_all_res env_example off = None) \<and>
   snd (serve env_example 5 1) = Inr () \<and>
   sent (fst (serve env_example 5 1)) =
     [(5, Bytes (http_200_hdr ''text/plain'' 2000)), (5, Filebuf 1024), (5, Filebuf 976)] \<and>
   reads (fst (serve env_example 5 1)) = [(7, 0, 1024), (7, 1024, 976)] \<and>
   read_dec (fmt_int 2000) = 2000"
proof -
  have h1: "take 3 (''GET /a.txt HTTP/1.1'' @ CRLF @ CRLF) = ''GET''" by simp
  have h3: "''./a.txt'' = (if ''./a.txt'' = ''./'' then ''./index.html'' else ''./a.txt'')"
    by simp
  have h4: "openat_res env_example (c_str ''./a.txt'') = Some 7"
    by (simp add: env_example_def c_str_a_txt)
  have h6: "fstat_res env_example 7 = Some \<lparr> st_isreg = True, st_size = 2000 \<rparr>"
    by (simp add: env_example_def)
  have h9: "\<forall>off. when_all_res env_example off = None" by (simp add: env_example_def)
  have h5: "(0::int) \<le> 7" by simp
  have h7: "st_isreg \<lparr> st_isreg = True, st_size = 2000 \<rparr>" by simp
  have h8: "st_size \<lparr> st_isreg = True, st_size = 2000 \<rparr> = int 2000" by simp
  obtain ctype where c: "contentType env_example ''./a.txt'' = Inr ctype"
    and r: "snd (serve env_example 5 1) = Inr ()"
    and s: "sent (fst (serve env_example 5 1)) =
       (5, Bytes (http_200_hdr ctype (int 2000)))
         # map (\<lambda>(off, len). (5, Filebuf len)) (spec_windows BUF_SIZE 2000)"
    and rd: "reads (fst (serve env_example 5 1)) =
       map (\<lambda>(off, len). (7, off, len)) (spec_windows BUF_SIZE 2000)"
    and d: "read_dec (fmt_int (int 2000)) = 2000"
    using C1_content_length_and_windows [OF env_example_received h1 env_example_request
        h3 h4 h5 h6 h7 h8 h9, of 5 1]
    by blast
  have ct: "ctype = ''text/plain''" using c by (simp add: env_example_contentType)
  have s': "sent (fst (serve env_example 5 1)) =
     [(5, Bytes (http_200_hdr ''text/plain'' 2000)), (5, Filebuf 1024), (5, Filebuf 976)]"
    using s by (simp add: ct spec_windows_2000)
  have rd': "reads (fst (serve env_example 5 1)) = [(7, 0, 1024), (7, 1024, 976)]"
    using rd by (simp add: spec_windows_2000)
  have d': "read_dec (fmt_int 2000) = 2000" using d by simp
  show ?thesis
    using env_example_received h1 env_example_request h4 h6 h9 r s' rd' d' by blast
qed

text \<open>
  C2. In the timeline of a connection handler, whatever the outside world does: when a
  read into the shared buffer is submitted, every operation on the buffer submitted
  before it has completed (so the read and the send of the window before are over); and
  what follows the read at once is the submission of the send of the bytes read, linked
  to it, and then the completion of the read and of the send, before the coroutine does
  anything else, such as submitting the next read.
\<close>

theorem C2_no_read_before_previous_send_done:
  assumes "timeline (fst (connection_handler e clientfd running)) =
      pre @ Submit (Readv f n off) # post"
  shows "submitted pre = completed pre \<and>
     (\<exists>c fl. take 3 post = [Submit (Sendmsg c (Filebuf n) fl True),
        Complete (Readv f n off), Complete (Sendmsg c (Filebuf n) fl True)])"
proof -
  have "\<forall>ev \<in> set (fst (connection_handler e clientfd running)). well_paired ev"
    using connection_handler_paired by blast
  from read_at_rest [OF this assms] show ?thesis .
qed

theorem C2_witness:
  "timeline (fst (connection_handler env_example 5 0)) =
     [Step Incr_runningCoroutines, Step (Log_serving 5 1),
      Submit (Recvmsg 5 BUF_SIZE [MSG_NOSIGNAL]), Complete (Recvmsg 5 BUF_SIZE [MSG_NOSIGNAL]),
      Step (Log_request ''./a.txt'' 5), Step (Openat ''./a.txt''), Step (Fstat 7),
      Submit (Sendmsg 5 (Bytes (http_200_hdr ''text/plain'' 2000)) [MSG_NOSIGNAL, MSG_MORE] False),
      Complete (Sendmsg 5 (Bytes (http_200_hdr ''text/plain'' 2000)) [MSG_NOSIGNAL, MSG_MORE] False),
      Submit (Readv 7 1024 0),
      Submit (Sendmsg 5 (Filebuf 1024) [MSG_NOSIGNAL, MSG_MORE] True),
      Complete (Readv 7 1024 0),
      Complete (Sendmsg 5 (Filebuf 1024) [MSG_NOSIGNAL, MSG_MORE] True),
      Submit (Delay 1), Complete (Delay 1)]
     @ Submit (Readv 7 976 1024)
     # [Submit (Sendmsg 5 (Filebuf 976) [MSG_NOSIGNAL] True),
        Complete (Readv 7 976 1024),
        Complete (Sendmsg 5 (Filebuf 976) [MSG_NOSIGNAL] True),
        Step (Close 7), Step (Close 5), Step (Log_closed 5), Step Decr_runningCoroutines] \<and>
   submitted
     [Step Incr_runningCoroutines, Step (Log_serving 5 1),
      Submit (Recvmsg 5 BUF_SIZE [MSG_NOSIGNAL]), Complete (Recvmsg 5 BUF_SIZE [MSG_NOSIGNAL]),
      Step (Log_request ''./a.txt'' 5), Step (Openat ''./a.txt''), Step (Fstat 7),
      Submit (Sendmsg 5 (Bytes (http_200_hdr ''text/plain'' 2000)) [MSG_NOSIGNAL, MSG_MORE] False),
      Complete (Sendmsg 5 (Bytes (http_200_hdr ''text/plain'' 2000)) [MSG_NOSIGNAL, MSG_MORE] False),
      Submit (Readv 7 1024 0),
      Submit (Sendmsg 5 (Filebuf 1024) [MSG_NOSIGNAL, MSG_MORE] True),
      Complete (Readv 7 1024 0),
      Complete (Sendmsg 5 (Filebuf 1024) [MSG_NOSIGNAL, MSG_MORE] True),
      Submit (Delay 1), Complete (Delay 1)] =
   completed
     [Step Incr_runningCoroutines, Step (Log_serving 5 1),
      Submit (Recvmsg 5 BUF_SIZE [MSG_NOSIGNAL]), Complete (Recvmsg 5 BUF_SIZE [MSG_NOSIGNAL]),
      Step (Log_request ''./a.txt'' 5), Step (Openat ''./a.txt''), Step (Fstat 7),
      Submit (Sendmsg 5 (Bytes (http_200_hdr ''text/plain'' 2000)) [MSG_NOSIGNAL, MSG_MORE] False),
      Complete (Sendmsg 5 (Bytes (http_200_hdr ''text/plain'' 2000)) [MSG_NOSIGNAL, MSG_MORE] False),
      Submit (Readv 7 1024 0),
      Submit (Sendmsg 5 (Filebuf 1024) [MSG_NOSIGNAL, MSG_MORE] True),
      Complete (Readv 7 1024 0),
      Complete (Sendmsg 5 (Filebuf 1024) [MSG_NOSIGNAL, MSG_MORE] True),
      Submit (Delay 1), Complete (Delay 1)]"
  using C2_no_read_before_previous_send_done [OF env_example_timeline] env_example_timeline
  by blast


text \<open>
  C4, as amended. A received request whose first three bytes are not \<open>GET\<close> (a shorter
  one included) is answered with the fixed 400 payload and nothing else: the handler logs,
  receives, logs and sends, and opens or reads no file.
\<close>

theorem C4_not_GET_prefix_400:
  assumes "received e = Some buf" and "take 3 buf \<noteq> ''GET''"
  shows "serve e clientfd running =
       ([Log_serving clientfd running, Await [Recvmsg clientfd BUF_SIZE [MSG_NOSIGNAL]],
         Log_unsupported buf,
         Await [Sendmsg clientfd (Bytes http_400_hdr) [MSG_NOSIGNAL] False]],
        Inr ()) \<and>
     sent (fst (serve e clientfd running)) = [(clientfd, Bytes http_400_hdr)] \<and>
     reads (fst (serve e clientfd running)) = [] \<and>
     http_400_hdr = ''HTTP/1.1 400 Bad Request'' @ CRLF @ ''Content-Length: 0'' @ CRLF @ CRLF"
proof -
  have sv: "serve e clientfd running =
       ([Log_serving clientfd running, Await [Recvmsg clientfd BUF_SIZE [MSG_NOSIGNAL]],
         Log_unsupported buf,
         Await [Sendmsg clientfd (Bytes http_400_hdr) [MSG_NOSIGNAL] False]],
        Inr ())"
    by (rule serve_not_GET [OF assms])
  have rd: "reads (fst (serve e clientfd running)) = []"
    by (simp add: sv reads_Cons reads_Nil ops_of_simps read_of_simps)
  have sn: "sent (fst (serve e clientfd running)) = [(clientfd, Bytes http_400_hdr)]"
    by (simp add: sv sent_400)
  show ?thesis using sv rd sn http_400_hdr_text by blast
qed

theorem C4_witness:
  "received env_post = Some (''POST /a.txt HTTP/1.1'' @ CRLF @ CRLF) \<and>
   take 3 (''POST /a.txt HTTP/1.1'' @ CRLF @ CRLF) \<noteq> ''GET'' \<and>
   serve env_post 5 1 =
     ([Log_serving 5 1, Await [Recvmsg 5 BUF_SIZE [MSG_NOSIGNAL]],
       Log_unsupported (''POST /a.txt HTTP/1.1'' @ CRLF @ CRLF),
       Await [Sendmsg 5 (Bytes http_400_hdr) [MSG_NOSIGNAL] False]],
      Inr ()) \<and>
   sent (fst (serve env_post 5 1)) = [(5, Bytes http_400_hdr)]"
proof -
  have h: "take 3 (''POST /a.txt HTTP/1.1'' @ CRLF @ CRLF) \<noteq> ''GET''" by simp
  show ?thesis
    using C4_not_GET_prefix_400 [OF env_post_received h, of 5 1] env_post_received h
    by blast
qed

theorem C4_counterexample:
  "received env_getx = Some (''GETX / HTTP/1.1'' @ CRLF @ CRLF) \<and>
   first_token (''GETX / HTTP/1.1'' @ CRLF @ CRLF) = ''GETX'' \<and>
   first_token (''GETX / HTTP/1.1'' @ CRLF @ CRLF) \<noteq> ''GET'' \<and>
   sent (fst (serve env_getx 5 1)) = [(5, Bytes http_404_hdr)] \<and>
   sent (fst (serve env_getx 5 1)) \<noteq> [(5, Bytes http_400_hdr)] \<and>
   Openat ''.'' \<in> set (fst (serve env_getx 5 1))"
proof -
  have ft: "first_token (''GETX / HTTP/1.1'' @ CRLF @ CRLF) = ''GETX''"
    by (simp add: first_token_def)
  have s: "sent (fst (serve env_getx 5 1)) = [(5, Bytes http_404_hdr)]"
    by (simp add: env_getx_serve sent_Cons sent_Nil ops_of_simps sent_of_simps)
  have o: "Openat ''.'' \<in> set (fst (serve env_getx 5 1))"
    by (simp add: env_getx_serve)
  have ft': "first_token (''GETX / HTTP/1.1'' @ CRLF @ CRLF) \<noteq> ''GET''"
    using ft by simp
  have ne: "sent (fst (serve env_getx 5 1)) \<noteq> [(5, Bytes http_400_hdr)]"
    using hdr_400_neq_404 by (simp add: s)
  show ?thesis using env_getx_received ft ft' s ne o by blast
qed

text \<open>
  C5. A GET request for a FIFO that no writer has open: the name is not that of a
  regular file, yet no 404 is sent. The blocking \<open>openat\<close> does not return, so neither
  \<open>fstat\<close> nor the test of the file type is reached; nothing is sent to the client, and
  the handler never closes the connection.
\<close>

theorem C5_fifo_open_blocks:
  "received env_fifo = Some (''GET /pipe HTTP/1.1'' @ CRLF @ CRLF) \<and>
   request_file (''GET /pipe HTTP/1.1'' @ CRLF @ CRLF) = Inr ''./pipe'' \<and>
   openat_res env_fifo (c_str ''./pipe'') = None \<and>
   http_send_file env_fifo ''./pipe'' 5 = ([Openat ''./pipe''], Inl Blocked) \<and>
   serve env_fifo 5 1 =
     ([Log_serving 5 1, Await [Recvmsg 5 BUF_SIZE [MSG_NOSIGNAL]],
       Log_request ''./pipe'' 5, Openat ''./pipe''],
      Inl Blocked) \<and>
   sent (fst (serve env_fifo 5 1)) = [] \<and>
   connection_handler env_fifo 5 0 =
     ([Incr_runningCoroutines, Log_serving 5 1,
       Await [Recvmsg 5 BUF_SIZE [MSG_NOSIGNAL]],
       Log_request ''./pipe'' 5, Openat ''./pipe''],
      1, Inl Blocked)"
proof -
  have c: "c_str ''./pipe'' = ''./pipe''" by (simp add: c_str_def)
  have o: "openat_res env_fifo (c_str ''./pipe'') = None" by (simp add: c env_fifo_def)
  have f: "''./pipe'' = (if ''./pipe'' = ''./'' then ''./index.html'' else ''./pipe'')"
    by simp
  have hs: "http_send_file env_fifo ''./pipe'' 5 = ([Openat ''./pipe''], Inl Blocked)"
    using http_send_file_blocked [OF f o, of 5] by (simp add: c)
  have h1: "take 3 (''GET /pipe HTTP/1.1'' @ CRLF @ CRLF) = ''GET''" by simp
  have sv: "serve env_fifo 5 1 =
     ([Log_serving 5 1, Await [Recvmsg 5 BUF_SIZE [MSG_NOSIGNAL]],
       Log_request ''./pipe'' 5, Openat ''./pipe''],
      Inl Blocked)"
    using serve_GET [OF env_fifo_received h1 env_fifo_request, of 5 1] by (simp add: hs)
  have sn: "sent (fst (serve env_fifo 5 1)) = []"
    by (simp add: sv sent_Cons sent_Nil ops_of_simps sent_of_simps)
  have ch: "connection_handler env_fifo 5 0 =
     ([Incr_runningCoroutines, Log_serving 5 1,
       Await [Recvmsg 5 BUF_SIZE [MSG_NOSIGNAL]],
       Log_request ''./pipe'' 5, Openat ''./pipe''],
      1, Inl Blocked)"
    using connection_handler_blocked [of env_fifo 5 0] sv by simp
  show ?thesis
    using env_fifo_received env_fifo_request o hs sv sn ch by blast
qed

text \<open>
  C6, as amended. A receive of zero bytes leaves a request that does not begin with
  \<open>GET\<close>: the handler takes the unsupported-request branch and answers with the fixed 400
  payload. No path is extracted and no file is opened. The empty read has no branch of
  its own.
\<close>

theorem C6_empty_read_400:
  assumes "recvmsg_res e = 0"
  shows "serve e clientfd running =
       ([Log_serving clientfd running, Await [Recvmsg clientfd BUF_SIZE [MSG_NOSIGNAL]],
         Log_unsupported [],
         Await [Sendmsg clientfd (Bytes http_400_hdr) [MSG_NOSIGNAL] False]],
        Inr ()) \<and>
     sent (fst (serve e clientfd running)) = [(clientfd, Bytes http_400_hdr)]"
proof -
  have rc: "received e = Some []" by (rule received_zero [OF assms])
  have ng: "take 3 ([] :: string) \<noteq> ''GET''" by simp
  have sv: "serve e clientfd running =
       ([Log_serving clientfd running, Await [Recvmsg clientfd BUF_SIZE [MSG_NOSIGNAL]],
         Log_unsupported [],
         Await [Sendmsg clientfd (Bytes http_400_hdr) [MSG_NOSIGNAL] False]],
        Inr ())"
    by (rule serve_not_GET [OF rc ng])
  then show ?thesis by (simp add: sent_400)
qed

theorem C6_witness:
  "recvmsg_res env_empty = 0 \<and>
   serve env_empty 5 1 =
     ([Log_serving 5 1, Await [Recvmsg 5 BUF_SIZE [MSG_NOSIGNAL]], Log_unsupported [],
       Await [Sendmsg 5 (Bytes http_400_hdr) [MSG_NOSIGNAL] False]],
      Inr ()) \<and>
   sent (fst (serve env_empty 5 1)) = [(5, Bytes http_400_hdr)]"
proof -
  have h: "recvmsg_res env_empty = 0" by (simp add: env_empty_def)
  show ?thesis using C6_empty_read_400 [OF h, of 5 1] h by blast
qed

theorem C6_counterexample:
  "recvmsg_res env_empty = 0 \<and>
   received env_empty = Some [] \<and>
   sent (fst (serve env_empty 5 1)) = [(5, Bytes http_400_hdr)] \<and>
   sent (fst (serve env_empty 5 1)) \<noteq> [(5, Bytes http_404_hdr)] \<and>
   fst (serve env_empty 5 1) =
     [Log_serving 5 1, Await [Recvmsg 5 BUF_SIZE [MSG_NOSIGNAL]], Log_unsupported [],
      Await [Sendmsg 5 (Bytes http_400_hdr) [MSG_NOSIGNAL] False]]"
proof -
  have h: "recvmsg_res env_empty = 0" by (simp add: env_empty_def)
  have ng: "take 3 ([] :: string) \<noteq> ''GET''" by simp
  have sv: "serve env_empty 5 1 =
     ([Log_serving 5 1, Await [Recvmsg 5 BUF_SIZE [MSG_NOSIGNAL]], Log_unsupported [],
       Await [Sendmsg 5 (Bytes http_400_hdr) [MSG_NOSIGNAL] False]],
      Inr ())"
    by (rule serve_not_GET [OF env_empty_received ng])
  have sn: "sent (fst (serve env_empty 5 1)) = [(5, Bytes http_400_hdr)]"
    by (simp add: sv sent_400)
  have ne: "sent (fst (serve env_empty 5 1)) \<noteq> [(5, Bytes http_404_hdr)]"
    using hdr_400_neq_404 by (simp add: sn)
  have tr: "fst (serve env_empty 5 1) =
     [Log_serving 5 1, Await [Recvmsg 5 BUF_SIZE [MSG_NOSIGNAL]], Log_unsupported [],
      Await [Sendmsg 5 (Bytes http_400_hdr) [MSG_NOSIGNAL] False]]"
    by (simp add: sv)
  show ?thesis using h env_empty_received sn ne tr by blast
qed

text \<open>
  C7. The request that consists of the three bytes \<open>GET\<close> and nothing more: the path
  extraction raises \<open>out_of_range\<close>, the handler logs the crash and closes the connection,
  and nothing at all is sent to the client.
\<close>

theorem C7_bare_GET_no_response:
  "received env_bare_get = Some ''GET'' \<and>
   connection_handler env_bare_get 5 0 =
     ([Incr_runningCoroutines, Log_serving 5 1,
       Await [Recvmsg 5 BUF_SIZE [MSG_NOSIGNAL]],
       Log_crashed 5 out_of_range, Close 5, Log_closed 5, Decr_runningCoroutines],
      0, Inr ()) \<and>
   sent (fst (connection_handler env_bare_get 5 0)) = []"
proof -
  have h1: "take 3 ''GET'' = ''GET''" by simp
  have h2: "request_file ''GET'' = Inl out_of_range"
    by (simp add: request_file_short)
  have sv: "serve env_bare_get 5 1 =
     ([Log_serving 5 1, Await [Recvmsg 5 BUF_SIZE [MSG_NOSIGNAL]]],
      Inl (Thrown out_of_range))"
    by (rule serve_parse_fails [OF env_bare_get_received h1 h2])
  have ch: "connection_handler env_bare_get 5 0 =
     ([Incr_runningCoroutines, Log_serving 5 1,
       Await [Recvmsg 5 BUF_SIZE [MSG_NOSIGNAL]],
       Log_crashed 5 out_of_range, Close 5, Log_closed 5, Decr_runningCoroutines],
      0, Inr ())"
    using connection_handler_catches [of env_bare_get 5 0] sv by simp
  have sn: "sent (fst (connection_handler env_bare_get 5 0)) = []"
    by (simp add: ch sent_Cons sent_Nil ops_of_simps sent_of_simps)
  show ?thesis using env_bare_get_received ch sn by blast
qed

text \<open>
  C8. In the timeline of the responder, for a regular file the send of the status-200
  header is submitted and completed before anything of the body transfer happens: all
  reads into the buffer and all sends from it come after its completion. When the file
  is not found, the 404 send has completed before the responder closes the descriptor
  and returns; for an unsupported request, the 400 send has completed when \<open>serve\<close>
  returns.
\<close>

theorem C8_header_awaited_before_body:
  assumes "filename = (if filename0 = ''./'' then ''./index.html'' else filename0)"
    and "openat_res e (c_str filename) = Some infd"
  shows "(0 \<le> infd \<and> fstat_res e infd = Some st \<and> st_isreg st \<longrightarrow>
      (\<exists>ctype body r.
         contentType e filename = Inr ctype \<and>
         send_body e infd clientfd (st_size st) = (body, r) \<and>
         snd (http_send_file e filename0 clientfd) = r \<and>
         timeline (fst (http_send_file e filename0 clientfd)) =
           [Step (Openat (c_str filename)), Step (Fstat infd),
            Submit (Sendmsg clientfd (Bytes (http_200_hdr ctype (st_size st)))
                      [MSG_NOSIGNAL, MSG_MORE] False),
            Complete (Sendmsg clientfd (Bytes (http_200_hdr ctype (st_size st)))
                      [MSG_NOSIGNAL, MSG_MORE] False)]
           @ timeline body @ [Step (Close infd)])) \<and>
     (infd < 0 \<or> fstat_res e infd = None \<or>
        (\<exists>st. fstat_res e infd = Some st \<and> \<not> st_isreg st) \<longrightarrow>
      snd (http_send_file e filename0 clientfd) = Inr () \<and>
      timeline (fst (http_send_file e filename0 clientfd)) =
        Step (Openat (c_str filename)) # (if infd < 0 then [] else [Step (Fstat infd)])
        @ [Step (Log_not_found filename),
           Submit (Sendmsg clientfd (Bytes http_404_hdr) [MSG_NOSIGNAL] False),
           Complete (Sendmsg clientfd (Bytes http_404_hdr) [MSG_NOSIGNAL] False),
           Step (Close infd)]) \<and>
     (received e = Some buf \<and> take 3 buf \<noteq> ''GET'' \<longrightarrow>
      snd (serve e clientfd running) = Inr () \<and>
      timeline (fst (serve e clientfd running)) =
        [Step (Log_serving clientfd running),
         Submit (Recvmsg clientfd BUF_SIZE [MSG_NOSIGNAL]),
         Complete (Recvmsg clientfd BUF_SIZE [MSG_NOSIGNAL]),
         Step (Log_unsupported buf),
         Submit (Sendmsg clientfd (Bytes http_400_hdr) [MSG_NOSIGNAL] False),
         Complete (Sendmsg clientfd (Bytes http_400_hdr) [MSG_NOSIGNAL] False)])"
proof (intro conjI impI)
  assume reg: "0 \<le> infd \<and> fstat_res e infd = Some st \<and> st_isreg st"
  obtain ctype where ct: "contentType e filename = Inr ctype"
    using contentType_ok by blast
  have hs: "http_send_file e filename0 clientfd =
     (Openat (c_str filename) # Fstat infd
        # Await [Sendmsg clientfd (Bytes (http_200_hdr ctype (st_size st)))
                   [MSG_NOSIGNAL, MSG_MORE] False]
        # fst (send_body e infd clientfd (st_size st)) @ [Close infd],
      snd (send_body e infd clientfd (st_size st)))"
    using http_send_file_regular [OF assms(1) assms(2) _ _ _ ct, of st clientfd] reg by simp
  show "\<exists>ctype body r.
         contentType e filename = Inr ctype \<and>
         send_body e infd clientfd (st_size st) = (body, r) \<and>
         snd (http_send_file e filename0 clientfd) = r \<and>
         timeline (fst (http_send_file e filename0 clientfd)) =
           [Step (Openat (c_str filename)), Step (Fstat infd),
            Submit (Sendmsg clientfd (Bytes (http_200_hdr ctype (st_size st)))
                      [MSG_NOSIGNAL, MSG_MORE] False),
            Complete (Sendmsg clientfd (Bytes (http_200_hdr ctype (st_size st)))
                      [MSG_NOSIGNAL, MSG_MORE] False)]
           @ timeline body @ [Step (Close infd)]"
    by (intro exI [of _ ctype] exI [of _ "fst (send_body e infd clientfd (st_size st))"]
        exI [of _ "snd (send_body e infd clientfd (st_size st))"])
      (simp add: ct hs timeline_Cons timeline_append timeline_Nil timeline_of_def)
next
  assume nf: "infd < 0 \<or> fstat_res e infd = None \<or>
        (\<exists>st. fstat_res e infd = Some st \<and> \<not> st_isreg st)"
  have hs: "http_send_file e filename0 clientfd =
     (Openat (c_str filename) # (if infd < 0 then [] else [Fstat infd])
        @ [Log_not_found filename,
           Await [Sendmsg clientfd (Bytes http_404_hdr) [MSG_NOSIGNAL] False],
           Close infd],
      Inr ())"
    by (rule http_send_file_not_found [OF assms(1) assms(2) nf])
  show "snd (http_send_file e filename0 clientfd) = Inr ()" by (simp add: hs)
  show "timeline (fst (http_send_file e filename0 clientfd)) =
        Step (Openat (c_str filename)) # (if infd < 0 then [] else [Step (Fstat infd)])
        @ [Step (Log_not_found filename),
           Submit (Sendmsg clientfd (Bytes http_404_hdr) [MSG_NOSIGNAL] False),
           Complete (Sendmsg clientfd (Bytes http_404_hdr) [MSG_NOSIGNAL] False),
           Step (Close infd)]"
    by (simp add: hs timeline_Cons timeline_append timeline_Nil timeline_of_def)
next
  assume "received e = Some buf \<and> take 3 buf \<noteq> ''GET''"
  then have rc: "received e = Some buf" and ng: "take 3 buf \<noteq> ''GET''" by simp_all
  show "snd (serve e clientfd running) = Inr ()" by (simp add: serve_not_GET [OF rc ng])
  show "timeline (fst (serve e clientfd running)) =
        [Step (Log_serving clientfd running),
         Submit (Recvmsg clientfd BUF_SIZE [MSG_NOSIGNAL]),
         Complete (Recvmsg clientfd BUF_SIZE [MSG_NOSIGNAL]),
         Step (Log_unsupported buf),
         Submit (Sendmsg clientfd (Bytes http_400_hdr) [MSG_NOSIGNAL] False),
         Complete (Sendmsg clientfd (Bytes http_400_hdr) [MSG_NOSIGNAL] False)]"
    by (simp add: serve_not_GET [OF rc ng] timeline_Cons timeline_Nil timeline_of_def)
qed

theorem C8_witness:
  "openat_res env_example (c_str ''./a.txt'') = Some 7 \<and>
   fstat_res env_example 7 = Some \<lparr> st_isreg = True, st_size = 2000 \<rparr> \<and>
   timeline (fst (http_send_file env_example ''./a.txt'' 5)) =
     [Step (Openat ''./a.txt''), Step (Fstat 7),
      Submit (Sendmsg 5 (Bytes (http_200_hdr ''text/plain'' 2000)) [MSG_NOSIGNAL, MSG_MORE] False),
      Complete (Sendmsg 5 (Bytes (http_200_hdr ''text/plain'' 2000)) [MSG_NOSIGNAL, MSG_MORE] False)]
     @ timeline (fst (send_body env_example 7 5 2000)) @ [Step (Close 7)] \<and>
   openat_res env_missing (c_str ''./b.txt'') = Some (- 1) \<and>
   timeline (fst (http_send_file env_missing ''./b.txt'' 5)) =
     [Step (Openat ''./b.txt''), Step (Log_not_found ''./b.txt''),
      Submit (Sendmsg 5 (Bytes http_404_hdr) [MSG_NOSIGNAL] False),
      Complete (Sendmsg 5 (Bytes http_404_hdr) [MSG_NOSIGNAL] False),
      Step (Close (- 1))] \<and>
   received env_post = Some (''POST /a.txt HTTP/1.1'' @ CRLF @ CRLF) \<and>
   take 3 (''POST /a.txt HTTP/1.1'' @ CRLF @ CRLF) \<noteq> ''GET'' \<and>
   timeline (fst (serve env_post 5 1)) =
     [Step (Log_serving 5 1),
      Submit (Recvmsg 5 BUF_SIZE [MSG_NOSIGNAL]),
      Complete (Recvmsg 5 BUF_SIZE [MSG_NOSIGNAL]),
      Step (Log_unsupported (''POST /a.txt HTTP/1.1'' @ CRLF @ CRLF)),
      Submit (Sendmsg 5 (Bytes http_400_hdr) [MSG_NOSIGNAL] False),
      Complete (Sendmsg 5 (Bytes http_400_hdr) [MSG_NOSIGNAL] False)]"
proof -
  have a0: "''./a.txt'' = (if ''./a.txt'' = ''./'' then ''./index.html'' else ''./a.txt'')"
    by simp
  have a1: "openat_res env_example (c_str ''./a.txt'') = Some 7"
    by (simp add: env_example_def c_str_def)
  have a2: "fstat_res env_example 7 = Some \<lparr> st_isreg = True, st_size = 2000 \<rparr>"
    by (simp add: env_example_def)
  have c1: "c_str ''./a.txt'' = ''./a.txt''" by (simp add: c_str_def)
  have A: "timeline (fst (http_send_file env_example ''./a.txt'' 5)) =
     [Step (Openat ''./a.txt''), Step (Fstat 7),
      Submit (Sendmsg 5 (Bytes (http_200_hdr ''text/plain'' 2000)) [MSG_NOSIGNAL, MSG_MORE] False),
      Complete (Sendmsg 5 (Bytes (http_200_hdr ''text/plain'' 2000)) [MSG_NOSIGNAL, MSG_MORE] False)]
     @ timeline (fst (send_body env_example 7 5 2000)) @ [Step (Close 7)]"
    using C8_header_awaited_before_body [where e = env_example and clientfd = 5
        and running = 1 and st = "\<lparr> st_isreg = True, st_size = 2000 \<rparr>"
        and infd = 7 and buf = "[]", OF a0 a1]
    by (auto simp: a2 c1 env_example_contentType)
  have b0: "''./b.txt'' = (if ''./b.txt'' = ''./'' then ''./index.html'' else ''./b.txt'')"
    by simp
  have b1: "openat_res env_missing (c_str ''./b.txt'') = Some (- 1)"
    by (simp add: env_missing_def env_example_def c_str_def)
  have c2: "c_str ''./b.txt'' = ''./b.txt''" by (simp add: c_str_def)
  have B: "timeline (fst (http_send_file env_missing ''./b.txt'' 5)) =
     [Step (Openat ''./b.txt''), Step (Log_not_found ''./b.txt''),
      Submit (Sendmsg 5 (Bytes http_404_hdr) [MSG_NOSIGNAL] False),
      Complete (Sendmsg 5 (Bytes http_404_hdr) [MSG_NOSIGNAL] False),
      Step (Close (- 1))]"
    using C8_header_awaited_before_body [where e = env_missing and clientfd = 5
        and running = 1 and st = "\<lparr> st_isreg = True, st_size = 2000 \<rparr>"
        and infd = "- 1" and buf = "[]", OF b0 b1]
    by (simp add: c2)
  have g: "take 3 (''POST /a.txt HTTP/1.1'' @ CRLF @ CRLF) \<noteq> ''GET''" by simp
  have a1p: "openat_res env_post (c_str ''./a.txt'') = Some 7"
    by (simp add: env_post_def env_example_def c_str_def)
  have C: "timeline (fst (serve env_post 5 1)) =
     [Step (Log_serving 5 1),
      Submit (Recvmsg 5 BUF_SIZE [MSG_NOSIGNAL]),
      Complete (Recvmsg 5 BUF_SIZE [MSG_NOSIGNAL]),
      Step (Log_unsupported (''POST /a.txt HTTP/1.1'' @ CRLF @ CRLF)),
      Submit (Sendmsg 5 (Bytes http_400_hdr) [MSG_NOSIGNAL] False),
      Complete (Sendmsg 5 (Bytes http_400_hdr) [MSG_NOSIGNAL] False)]"
    using C8_header_awaited_before_body [where e = env_post and clientfd = 5
        and running = 1 and st = "\<lparr> st_isreg = True, st_size = 2000 \<rparr>"
        and buf = "''POST /a.txt HTTP/1.1'' @ CRLF @ CRLF" and infd = 7, OF a0 a1p]
      env_post_received g
    by blast
  show ?thesis using A B C g env_post_received by (simp add: a1 a2 b1)
qed

text \<open>
  C9. A request for the root path is served as a request for the default document is,
  in every state of the root directory (so also when the document is a regular file):
  the responder called with \<open>./\<close> does what it does with \<open>./index.html\<close>, and the two
  handlers differ in nothing but the name they log; what they send, what they read and
  how they end are the same.
\<close>

theorem C9_root_served_as_index:
  assumes "received e1 = Some b1" and "take 3 b1 = ''GET''"
    and "request_file b1 = Inr ''./''"
    and "received e2 = Some b2" and "take 3 b2 = ''GET''"
    and "request_file b2 = Inr ''./index.html''"
    and "e2 = e1 \<lparr> recvmsg_res := recvmsg_res e2, buffer := buffer e2 \<rparr>"
  shows "http_send_file e1 ''./'' clientfd = http_send_file e1 ''./index.html'' clientfd \<and>
     (\<exists>tr r.
        serve e1 clientfd running =
          ([Log_serving clientfd running, Await [Recvmsg clientfd BUF_SIZE [MSG_NOSIGNAL]],
            Log_request ''./'' clientfd] @ tr, r) \<and>
        serve e2 clientfd running =
          ([Log_serving clientfd running, Await [Recvmsg clientfd BUF_SIZE [MSG_NOSIGNAL]],
            Log_request ''./index.html'' clientfd] @ tr, r) \<and>
        (tr, r) = http_send_file e1 ''./index.html'' clientfd) \<and>
     sent (fst (serve e1 clientfd running)) = sent (fst (serve e2 clientfd running)) \<and>
     reads (fst (serve e1 clientfd running)) = reads (fst (serve e2 clientfd running))"
proof -
  have same: "http_send_file e2 ''./index.html'' clientfd =
      http_send_file e1 ''./index.html'' clientfd"
    using http_send_file_received [where e = e1 and n = "recvmsg_res e2"
        and b = "buffer e2" and filename = "''./index.html''" and clientfd = clientfd]
      assms(7) by simp
  have s1: "serve e1 clientfd running =
      ([Log_serving clientfd running, Await [Recvmsg clientfd BUF_SIZE [MSG_NOSIGNAL]],
        Log_request ''./'' clientfd] @ fst (http_send_file e1 ''./index.html'' clientfd),
       snd (http_send_file e1 ''./index.html'' clientfd))"
    using serve_GET [OF assms(1) assms(2) assms(3), of clientfd running]
    by (simp add: http_send_file_root)
  have s2: "serve e2 clientfd running =
      ([Log_serving clientfd running, Await [Recvmsg clientfd BUF_SIZE [MSG_NOSIGNAL]],
        Log_request ''./index.html'' clientfd] @ fst (http_send_file e1 ''./index.html'' clientfd),
       snd (http_send_file e1 ''./index.html'' clientfd))"
    using serve_GET [OF assms(4) assms(5) assms(6), of clientfd running]
    by (simp add: same)
  have sn: "sent (fst (serve e1 clientfd running)) = sent (fst (serve e2 clientfd running))"
    by (simp add: s1 s2 sent_Cons sent_append ops_of_simps sent_of_simps)
  have rd: "reads (fst (serve e1 clientfd running)) = reads (fst (serve e2 clientfd running))"
    by (simp add: s1 s2 reads_Cons reads_append ops_of_simps read_of_simps)
  have ex: "\<exists>tr r.
        serve e1 clientfd running =
          ([Log_serving clientfd running, Await [Recvmsg clientfd BUF_SIZE [MSG_NOSIGNAL]],
            Log_request ''./'' clientfd] @ tr, r) \<and>
        serve e2 clientfd running =
          ([Log_serving clientfd running, Await [Recvmsg clientfd BUF_SIZE [MSG_NOSIGNAL]],
            Log_request ''./index.html'' clientfd] @ tr, r) \<and>
        (tr, r) = http_send_file e1 ''./index.html'' clientfd"
    using s1 s2
    by (intro exI [of _ "fst (http_send_file e1 ''./index.html'' clientfd)"]
        exI [of _ "snd (http_send_file e1 ''./index.html'' clientfd)"]) simp
  show ?thesis using http_send_file_root ex sn rd by blast
qed

theorem C9_witness:
  "received env_index = Some (''GET / HTTP/1.1'' @ CRLF @ CRLF) \<and>
   request_file (''GET / HTTP/1.1'' @ CRLF @ CRLF) = Inr ''./'' \<and>
   received env_index_named = Some (''GET /index.html HTTP/1.1'' @ CRLF @ CRLF) \<and>
   request_file (''GET /index.html HTTP/1.1'' @ CRLF @ CRLF) = Inr ''./index.html'' \<and>
   sent (fst (serve env_index 5 1)) =
     [(5, Bytes (http_200_hdr ''text/html'' 10)), (5, Filebuf 10)] \<and>
   sent (fst (serve env_index_named 5 1)) =
     [(5, Bytes (http_200_hdr ''text/html'' 10)), (5, Filebuf 10)]"
proof -
  have a1: "take 3 (''GET / HTTP/1.1'' @ CRLF @ CRLF) = ''GET''" by simp
  have a2: "request_file (''GET / HTTP/1.1'' @ CRLF @ CRLF) = Inr ''./''"
    by (simp add: request_file_def sv_substr_def sv_find_def CRLF_def)
  have a3: "take 3 (''GET /index.html HTTP/1.1'' @ CRLF @ CRLF) = ''GET''" by simp
  have a4: "request_file (''GET /index.html HTTP/1.1'' @ CRLF @ CRLF) = Inr ''./index.html''"
    by (simp add: request_file_def sv_substr_def sv_find_def CRLF_def)
  have a5: "env_index_named =
      env_index \<lparr> recvmsg_res := recvmsg_res env_index_named,
                   buffer := buffer env_index_named \<rparr>"
    by (simp add: env_index_named_def)
  note t = C9_root_served_as_index [OF env_index_received a1 a2 env_index_named_received
      a3 a4 a5, of 5 1]
  obtain tr r where
    s1: "serve env_index 5 1 =
          ([Log_serving 5 1, Await [Recvmsg 5 BUF_SIZE [MSG_NOSIGNAL]],
            Log_request ''./'' 5] @ tr, r)"
    and s2: "serve env_index_named 5 1 =
          ([Log_serving 5 1, Await [Recvmsg 5 BUF_SIZE [MSG_NOSIGNAL]],
            Log_request ''./index.html'' 5] @ tr, r)"
    and hs: "(tr, r) = http_send_file env_index ''./index.html'' 5"
    using t by blast
  have tr: "tr = [Openat ''./index.html'', Fstat 7,
       Await [Sendmsg 5 (Bytes (http_200_hdr ''text/html'' 10)) [MSG_NOSIGNAL, MSG_MORE] False],
       Await [Readv 7 10 0, Sendmsg 5 (Filebuf 10) [MSG_NOSIGNAL] True],
       Close 7]"
    using hs by (simp add: env_index_responder)
  have "sent (fst (serve env_index 5 1)) =
     [(5, Bytes (http_200_hdr ''text/html'' 10)), (5, Filebuf 10)]"
    unfolding s1 by (simp add: tr sent_Cons sent_Nil ops_of_simps sent_of_simps)
  moreover have "sent (fst (serve env_index_named 5 1)) =
     [(5, Bytes (http_200_hdr ''text/html'' 10)), (5, Filebuf 10)]"
    unfolding s2 by (simp add: tr sent_Cons sent_Nil ops_of_simps sent_of_simps)
  ultimately show ?thesis
    using env_index_received env_index_named_received a2 a4 by blast
qed

text \<open>
  C10. A received GET request (its first four bytes are \<open>GET\<close> and a space) with no
  further space, so with nothing after the target path: the file name is a dot followed
  by all the bytes from position 4 to the end of the read, the extraction does not fail,
  and \<open>serve\<close> hands that name to the responder.
\<close>

theorem C10_path_runs_to_end:
  assumes "received e = Some buf" and "take 4 buf = ''GET ''"
    and "CHR '' '' \<notin> set (drop 4 buf)"
  shows "request_file buf = Inr (''.'' @ drop 4 buf) \<and>
     serve e clientfd running =
       ([Log_serving clientfd running, Await [Recvmsg clientfd BUF_SIZE [MSG_NOSIGNAL]],
         Log_request (''.'' @ drop 4 buf) clientfd]
          @ fst (http_send_file e (''.'' @ drop 4 buf) clientfd),
        snd (http_send_file e (''.'' @ drop 4 buf) clientfd))"
proof -
  have "length (take 4 buf) = 4" by (simp add: assms(2))
  then have len: "4 \<le> length buf" by simp
  have "take 3 (take 4 buf) = ''GET''" by (simp add: assms(2))
  then have get: "take 3 buf = ''GET''" by simp
  have f: "sv_find buf (CHR '' '') 4 = npos"
    by (rule sv_find_absent [OF assms(3)])
  have "length buf - 4 \<le> npos - 4"
    using received_length [OF assms(1)] by (simp add: BUF_SIZE_def npos_def)
  then have t: "take (npos - 4) (drop 4 buf) = drop 4 buf"
    by simp
  have rf: "request_file buf = Inr (''.'' @ drop 4 buf)"
    using request_file_long [OF len] by (simp only: f t)
  show ?thesis
    using serve_GET [OF assms(1) get rf, of clientfd running] rf by simp
qed

theorem C10_witness:
  "received env_no_version = Some ''GET /a.txt'' \<and>
   take 4 ''GET /a.txt'' = ''GET '' \<and>
   CHR '' '' \<notin> set (drop 4 ''GET /a.txt'') \<and>
   request_file ''GET /a.txt'' = Inr ''./a.txt'' \<and>
   fst (serve env_no_version 5 1) =
     [Log_serving 5 1, Await [Recvmsg 5 BUF_SIZE [MSG_NOSIGNAL]], Log_request ''./a.txt'' 5]
     @ fst (http_send_file env_no_version ''./a.txt'' 5)"
proof -
  have h2: "take 4 ''GET /a.txt'' = ''GET ''" by simp
  have h3: "CHR '' '' \<notin> set (drop 4 ''GET /a.txt'')" by simp
  note t = C10_path_runs_to_end [OF env_no_version_received h2 h3, of 5 1]
  have rf: "request_file ''GET /a.txt'' = Inr ''./a.txt''" using t by simp
  have sv: "fst (serve env_no_version 5 1) =
     [Log_serving 5 1, Await [Recvmsg 5 BUF_SIZE [MSG_NOSIGNAL]], Log_request ''./a.txt'' 5]
     @ fst (http_send_file env_no_version ''./a.txt'' 5)"
    using t by simp
  show ?thesis using env_no_version_received h2 h3 rf sv by blast
qed

end
